theory Spec2Isabelle
  imports Main "HOL-Library.Multiset" "HOL-Library.Char_ord" "HOL-Library.List_Lexorder"
    "HOL-Library.Product_Lexorder"
begin

chapter \<open>The conversation store of ChatVortex\<close>

text \<open>
  A shallow embedding of the storage manager (\<^verbatim>\<open>src/lib/storage.ts\<close>), of the storage
  hook (\<^verbatim>\<open>src/hooks/useAdvancedStorage.ts\<close>), of the effect of the chat page that
  writes the session list to localStorage and of the model-list cache of the API
  module, followed by the properties proved of them. The browser's IndexedDB and
  localStorage are modelled as values the operations take and return; the clock, the
  quota of localStorage, storage faults and the network answer are parameters.
\<close>

section \<open>Record model\<close>

text \<open>
  The persisted entities of \<^verbatim>\<open>Message\<close> and \<^verbatim>\<open>ChatSession\<close> (the types module) and
  \<^verbatim>\<open>CompressedSession\<close> (\<^verbatim>\<open>src/lib/storage.ts\<close>).
  A JavaScript \<^verbatim>\<open>Date\<close> is the number of milliseconds since the epoch, an integer
  (\<^verbatim>\<open>new Date(0)\<close> is \<open>0\<close>); invalid dates are outside the model. Strings are
  lists of code units. An optional field \<^verbatim>\<open>f?: t\<close> is a \<open>t option\<close>.
\<close>

type_synonym Date = int

datatype Role = User | Assistant

datatype LayoutMode = FloatingCards | SplitScreen | Timeline | Immersive

text \<open>\<^verbatim>\<open>SessionConfig\<close> is stored verbatim and never inspected by the storage code.\<close>

typedecl SessionConfig

record Message =
  m_id :: string
  m_content :: string
  m_role :: Role
  m_timestamp :: Date
  m_isTyping :: "bool option"
  m_isStreaming :: "bool option"

record ChatSession =
  s_id :: string
  s_title :: string
  s_messages :: "Message list"
  s_createdAt :: Date
  s_updatedAt :: Date
  s_layoutMode :: "LayoutMode option"
  s_config :: "SessionConfig option"
  s_messageCount :: "nat option"
  s_lastMessagePreview :: "string option"

text \<open>
  \<^verbatim>\<open>CompressedSession\<close>: the record \<^verbatim>\<open>saveSession\<close> puts into the sessions store,
  \<^verbatim>\<open>{...sessionMetadata, messageCount, lastMessageId, preview}\<close>. The spread copies
  every field of the session but \<^verbatim>\<open>messages\<close>, so an optional
  \<^verbatim>\<open>lastMessagePreview\<close> of the session is carried along. \<open>c_messageCount = None\<close>
  stands for a stored record whose \<^verbatim>\<open>messageCount\<close> is absent or not a number
  (a record no \<^verbatim>\<open>saveSession\<close> of this version wrote).
\<close>

record CompressedSession =
  c_id :: string
  c_title :: string
  c_createdAt :: Date
  c_updatedAt :: Date
  c_layoutMode :: "LayoutMode option"
  c_config :: "SessionConfig option"
  c_lastMessagePreview :: "string option"
  c_messageCount :: "nat option"
  c_lastMessageId :: "string option"
  c_preview :: "string option"

text \<open>A record of the messages store: \<^verbatim>\<open>{ ...message, sessionId: session.id }\<close>.\<close>

record StoredMessage =
  sm_sessionId :: string
  sm_message :: Message

section \<open>The IndexedDB object stores\<close>

text \<open>
  An object store holds at most one record for each primary key (\<^verbatim>\<open>keyPath: 'id'\<close>).
  It is modelled as the list of its records; \<open>put\<close> replaces the record that has the
  same key. The position of a record in the list is never observable: every read below
  goes through \<open>store_get\<close> or through an index, which orders the records by index key
  and then by primary key.
\<close>

definition store_put :: "('r \<Rightarrow> string) \<Rightarrow> 'r \<Rightarrow> 'r list \<Rightarrow> 'r list" where
  "store_put key r store = r # filter (\<lambda>x. key x \<noteq> key r) store"

definition store_get :: "('r \<Rightarrow> string) \<Rightarrow> 'r list \<Rightarrow> string \<Rightarrow> 'r option" where
  "store_get key store k = find (\<lambda>x. key x = k) store"

definition store_delete :: "('r \<Rightarrow> string) \<Rightarrow> string \<Rightarrow> 'r list \<Rightarrow> 'r list" where
  "store_delete key k store = filter (\<lambda>x. key x \<noteq> k) store"

record DB =
  SESSIONS_STORE :: "CompressedSession list"
  MESSAGES_STORE :: "StoredMessage list"

definition sm_id :: "StoredMessage \<Rightarrow> string" where
  "sm_id r = m_id (sm_message r)"

definition sm_timestamp :: "StoredMessage \<Rightarrow> Date" where
  "sm_timestamp r = m_timestamp (sm_message r)"

text \<open>Each store of a database holds one record for a primary key.\<close>

definition wf_db :: "DB \<Rightarrow> bool" where
  "wf_db db \<longleftrightarrow> distinct (map c_id (SESSIONS_STORE db)) \<and> distinct (map sm_id (MESSAGES_STORE db))"

text \<open>
  \<^verbatim>\<open>index('sessionTimestamp').getAll(IDBKeyRange.bound([sid, lo], [sid, hi]), count)\<close>:
  the records whose index key \<^verbatim>\<open>[sessionId, timestamp]\<close> lies in the closed range,
  in ascending order of index key and then of primary key; with a count other than 0,
  only the first \<open>cnt\<close> of them (a count of 0, like an absent one, means no limit).
\<close>

definition sessionTimestamp_getAll ::
  "StoredMessage list \<Rightarrow> string \<Rightarrow> Date \<Rightarrow> Date \<Rightarrow> nat option \<Rightarrow> StoredMessage list" where
  "sessionTimestamp_getAll store sid lo hi cnt =
     (let inRange = sort_key (\<lambda>r. (sm_timestamp r, sm_id r))
            (filter (\<lambda>r. sm_sessionId r = sid \<and> lo \<le> sm_timestamp r \<and> sm_timestamp r \<le> hi) store)
      in case cnt of
           None \<Rightarrow> inRange
         | Some n \<Rightarrow> if n = 0 then inRange else take n inRange)"

section \<open>StorageManager (src/lib/storage.ts)\<close>

text \<open>
  \<^verbatim>\<open>saveSession\<close> (lines 93-126), \<^verbatim>\<open>getAllSessions\<close> (129-142),
  \<^verbatim>\<open>getSessionWithMessages\<close> (145-185), \<^verbatim>\<open>getSessionMessages\<close> (188-211) and
  \<^verbatim>\<open>deleteSession\<close> (214-240). The operations take the database and, where the source
  reads the clock (\<^verbatim>\<open>new Date()\<close>), the time \<open>now\<close> of the call, and return what the
  source resolves to when the database works; how they fail is modelled with the hook
  below. \<^verbatim>\<open>Array.prototype.sort\<close> is stable, as \<open>sort_key\<close> is.
\<close>

definition preview_of :: "Message list \<Rightarrow> string option" where
  "preview_of messages = (if messages = [] then None else Some (take 100 (m_content (last messages))))"

definition lastMessageId_of :: "Message list \<Rightarrow> string option" where
  "lastMessageId_of messages = (if messages = [] then None else Some (m_id (last messages)))"

definition compress :: "ChatSession \<Rightarrow> CompressedSession" where
  "compress session =
     \<lparr> c_id = s_id session, c_title = s_title session,
       c_createdAt = s_createdAt session, c_updatedAt = s_updatedAt session,
       c_layoutMode = s_layoutMode session, c_config = s_config session,
       c_lastMessagePreview = s_lastMessagePreview session,
       c_messageCount = Some (length (s_messages session)),
       c_lastMessageId = lastMessageId_of (s_messages session),
       c_preview = preview_of (s_messages session) \<rparr>"

definition messageWithSession :: "string \<Rightarrow> Message \<Rightarrow> StoredMessage" where
  "messageWithSession sid message = \<lparr> sm_sessionId = sid, sm_message = message \<rparr>"

definition saveSession :: "DB \<Rightarrow> ChatSession \<Rightarrow> DB" where
  "saveSession db session =
     \<lparr> SESSIONS_STORE = store_put c_id (compress session) (SESSIONS_STORE db),
       MESSAGES_STORE = fold (\<lambda>message. store_put sm_id (messageWithSession (s_id session) message))
                          (s_messages session) (MESSAGES_STORE db) \<rparr>"

definition getAllSessions :: "DB \<Rightarrow> CompressedSession list" where
  "getAllSessions db =
     sort_key (\<lambda>s. - c_updatedAt s) (sort_key (\<lambda>s. (c_updatedAt s, c_id s)) (SESSIONS_STORE db))"

text \<open>
  The messages of the session \<^verbatim>\<open>getSessionWithMessages\<close> builds: the range scan
  from \<^verbatim>\<open>new Date(0)\<close> to \<^verbatim>\<open>new Date()\<close>, without \<^verbatim>\<open>sessionId\<close>, sorted by
  \<^verbatim>\<open>a.timestamp.getTime() - b.timestamp.getTime()\<close>.
\<close>

definition fullSessionMessages :: "StoredMessage list \<Rightarrow> Date \<Rightarrow> string \<Rightarrow> Message list" where
  "fullSessionMessages store now sessionId =
     sort_key m_timestamp (map sm_message (sessionTimestamp_getAll store sessionId 0 now None))"

definition getSessionWithMessages :: "DB \<Rightarrow> Date \<Rightarrow> string \<Rightarrow> ChatSession option" where
  "getSessionWithMessages db now sessionId =
     (case store_get c_id (SESSIONS_STORE db) sessionId of
        None \<Rightarrow> None
      | Some sessionData \<Rightarrow>
          Some \<lparr> s_id = c_id sessionData, s_title = c_title sessionData,
                 s_messages = fullSessionMessages (MESSAGES_STORE db) now sessionId,
                 s_createdAt = c_createdAt sessionData, s_updatedAt = c_updatedAt sessionData,
                 s_layoutMode = c_layoutMode sessionData, s_config = c_config sessionData,
                 s_messageCount = None, s_lastMessagePreview = None \<rparr>)"

text \<open>
  \<^verbatim>\<open>getSessionMessages(sessionId, limit, before?)\<close>. A \<^verbatim>\<open>Date\<close> object is always
  truthy, so \<^verbatim>\<open>before || new Date()\<close> is \<open>now\<close> exactly when \<open>before\<close> is absent.
  The default \<^verbatim>\<open>limit = 50\<close> is what a caller that omits the argument passes.
  The count of \<^verbatim>\<open>getAll\<close> is an \<^verbatim>\<open>unsigned long\<close> with range enforcement: the
  definition describes the calls with a \<open>limit\<close> below \<open>2 ^ 32\<close>; with a larger one
  \<^verbatim>\<open>getAll\<close> raises a \<^verbatim>\<open>TypeError\<close> and the call rejects.
\<close>

definition getSessionMessages :: "DB \<Rightarrow> Date \<Rightarrow> string \<Rightarrow> nat \<Rightarrow> Date option \<Rightarrow> Message list" where
  "getSessionMessages db now sessionId limit before =
     (let upperBound = (case before of None \<Rightarrow> now | Some b \<Rightarrow> b);
          messages = sessionTimestamp_getAll (MESSAGES_STORE db) sessionId 0 upperBound (Some limit)
      in take limit (sort_key (\<lambda>m. - m_timestamp m) (map sm_message messages)))"

text \<open>
  \<^verbatim>\<open>index('sessionId').getAll(sessionId)\<close>: the records of the session, in ascending
  order of primary key.
\<close>

definition sessionId_getAll :: "StoredMessage list \<Rightarrow> string \<Rightarrow> StoredMessage list" where
  "sessionId_getAll store sid = sort_key sm_id (filter (\<lambda>r. sm_sessionId r = sid) store)"

definition deleteSession :: "DB \<Rightarrow> string \<Rightarrow> DB" where
  "deleteSession db sessionId =
     \<lparr> SESSIONS_STORE = store_delete c_id sessionId (SESSIONS_STORE db),
       MESSAGES_STORE = fold (\<lambda>message. store_delete sm_id (sm_id message))
                          (sessionId_getAll (MESSAGES_STORE db) sessionId)
                          (MESSAGES_STORE db) \<rparr>"

section \<open>The localStorage slot and the migration\<close>

text \<open>
  What \<^verbatim>\<open>localStorage.getItem('chatvortex-sessions')\<close> yields: \<open>None\<close> when the
  result is falsy (the key is absent, or holds the empty string), otherwise a text
  that \<^verbatim>\<open>JSON.parse\<close> rejects or that does not parse to an array, or an array.
  An array element is \<open>Some session\<close> when it is a well-formed session (dates as they
  come back from \<^verbatim>\<open>new Date(...)\<close>) and \<open>None\<close> when processing it raises
  (for instance an element without \<^verbatim>\<open>messages\<close>).
\<close>

datatype StoredText = Unparsable | SessionsJSON "ChatSession option list"

text \<open>
  The loop of \<^verbatim>\<open>migrateFromLocalStorage\<close>; an element that raises ends the loop
  in the enclosing \<^verbatim>\<open>catch\<close>, which only logs, so the sessions saved before it stay.
  The \<^verbatim>\<open>new Date(...)\<close> conversions of the loop are the identity on the dates of
  the model, and the database is taken to accept every \<^verbatim>\<open>saveSession\<close>.
\<close>

fun migrate_loop :: "DB \<Rightarrow> ChatSession option list \<Rightarrow> DB" where
  "migrate_loop db [] = db"
| "migrate_loop db (None # rest) = db"
| "migrate_loop db (Some session # rest) = migrate_loop (saveSession db session) rest"

definition migrateFromLocalStorage :: "DB \<Rightarrow> StoredText option \<Rightarrow> DB" where
  "migrateFromLocalStorage db localStorageData =
     (case localStorageData of
        None \<Rightarrow> db
      | Some Unparsable \<Rightarrow> db
      | Some (SessionsJSON sessions) \<Rightarrow> migrate_loop db sessions)"

section \<open>The storage hook (src/hooks/useAdvancedStorage.ts)\<close>

datatype StorageType = IndexedDB | LocalStorage | NoStorage

datatype ErrorText = StorageInitFailed | LocalStorageFull

record StorageState =
  st_sessions :: "ChatSession list"
  st_isLoading :: bool
  st_error :: "ErrorText option"
  st_storageType :: StorageType

text \<open>
  The hook's state together with the two stores it works on. The \<^verbatim>\<open>stats\<close> field of
  the state is left out: no operation below reads it.
\<close>

record World =
  w_state :: StorageState
  w_db :: DB
  w_localStorage :: "StoredText option"

text \<open>
  How a call of a \<^verbatim>\<open>storageManager\<close> method fails, and what the failure leaves in
  the database. \<^verbatim>\<open>saveSession\<close> and \<^verbatim>\<open>deleteSession\<close> never call
  \<^verbatim>\<open>transaction.abort()\<close> and rethrow what they catch;
  \<^verbatim>\<open>getSessionWithMessages\<close> catches it and returns \<^verbatim>\<open>null\<close>.
  \<^item> \<open>OpenFails\<close>: \<^verbatim>\<open>ensureDB\<close> or \<^verbatim>\<open>db.transaction\<close> raises, before the
    \<^verbatim>\<open>try\<close> block; nothing has been written and the call rejects.
  \<^item> \<open>CallThrows n\<close>: inside the \<^verbatim>\<open>try\<close> block, the call with number \<open>n\<close>
    (from 0) among the \<^verbatim>\<open>put\<close> or \<^verbatim>\<open>delete\<close> calls of the method raises
    (a \<^verbatim>\<open>DataError\<close>, a \<^verbatim>\<open>DataCloneError\<close>). The method rejects; the transaction is
    not aborted, so the \<open>n\<close> writes made before stay and are committed. When the
    method makes no more than \<open>n\<close> such calls, none raises.
  \<^item> \<open>RequestFails\<close>: a request of the transaction ends with an error event. Its
    handler rejects the promise and does not call \<^verbatim>\<open>preventDefault\<close>, so IndexedDB
    aborts the transaction: the database is as it was and the call rejects.
  \<^item> \<open>CommitAborts\<close>: every request succeeds and the transaction aborts when it is
    committed. The database is as it was; \<^verbatim>\<open>promisifyRequest(transaction)\<close> listens to
    \<^verbatim>\<open>complete\<close> and \<^verbatim>\<open>error\<close> only, so the promise of the call never settles.
    A read does not wait for its transaction and is not affected.
\<close>

datatype Fault = NoFault | OpenFails | RequestFails | CallThrows nat | CommitAborts

text \<open>How the promise of an asynchronous call ends.\<close>

datatype Outcome = Resolved | Rejected | Pending

datatype StoreError = StoreError

text \<open>The database after the first \<open>n\<close> \<^verbatim>\<open>put\<close> calls of \<^verbatim>\<open>saveSession\<close>.\<close>

definition partialSave :: "nat \<Rightarrow> DB \<Rightarrow> ChatSession \<Rightarrow> DB" where
  "partialSave n db session =
     (if n = 0 then db
      else \<lparr> SESSIONS_STORE = store_put c_id (compress session) (SESSIONS_STORE db),
             MESSAGES_STORE =
               fold (\<lambda>message. store_put sm_id (messageWithSession (s_id session) message))
                 (take (n - 1) (s_messages session)) (MESSAGES_STORE db) \<rparr>)"

definition try_saveSession :: "Fault \<Rightarrow> DB \<Rightarrow> ChatSession \<Rightarrow> DB \<times> Outcome" where
  "try_saveSession fault db session =
     (case fault of
        NoFault \<Rightarrow> (saveSession db session, Resolved)
      | OpenFails \<Rightarrow> (db, Rejected)
      | RequestFails \<Rightarrow> (db, Rejected)
      | CallThrows n \<Rightarrow>
          if n \<le> length (s_messages session) then (partialSave n db session, Rejected)
          else (saveSession db session, Resolved)
      | CommitAborts \<Rightarrow> (db, Pending))"

text \<open>The database after the first \<open>n\<close> \<^verbatim>\<open>delete\<close> calls of \<^verbatim>\<open>deleteSession\<close>.\<close>

definition partialDelete :: "nat \<Rightarrow> DB \<Rightarrow> string \<Rightarrow> DB" where
  "partialDelete n db sessionId =
     (if n = 0 then db
      else \<lparr> SESSIONS_STORE = store_delete c_id sessionId (SESSIONS_STORE db),
             MESSAGES_STORE =
               fold (\<lambda>message. store_delete sm_id (sm_id message))
                 (take (n - 1) (sessionId_getAll (MESSAGES_STORE db) sessionId))
                 (MESSAGES_STORE db) \<rparr>)"

definition try_deleteSession :: "Fault \<Rightarrow> DB \<Rightarrow> string \<Rightarrow> DB \<times> Outcome" where
  "try_deleteSession fault db sessionId =
     (case fault of
        NoFault \<Rightarrow> (deleteSession db sessionId, Resolved)
      | OpenFails \<Rightarrow> (db, Rejected)
      | RequestFails \<Rightarrow> (db, Rejected)
      | CallThrows n \<Rightarrow>
          if n \<le> length (sessionId_getAll (MESSAGES_STORE db) sessionId)
          then (partialDelete n db sessionId, Rejected)
          else (deleteSession db sessionId, Resolved)
      | CommitAborts \<Rightarrow> (db, Pending))"

text \<open>
  \<^verbatim>\<open>getSessionWithMessages\<close> writes nothing; whatever is raised inside its
  \<^verbatim>\<open>try\<close> block ends in \<^verbatim>\<open>return null\<close>.
\<close>

definition try_getSessionWithMessages ::
  "Fault \<Rightarrow> DB \<Rightarrow> Date \<Rightarrow> string \<Rightarrow> StoreError + ChatSession option" where
  "try_getSessionWithMessages fault db now sessionId =
     (case fault of
        NoFault \<Rightarrow> Inr (getSessionWithMessages db now sessionId)
      | OpenFails \<Rightarrow> Inl StoreError
      | RequestFails \<Rightarrow> Inr None
      | CallThrows n \<Rightarrow> Inr None
      | CommitAborts \<Rightarrow> Inr (getSessionWithMessages db now sessionId))"

text \<open>
  \<^verbatim>\<open>localStorage.setItem\<close> either stores the text or raises; which one depends on
  the browser's quota and is a parameter of the model, asked with the sessions being
  serialised. A stored array parses back to the same sessions.
\<close>

datatype SetItemResult = Stored | QuotaExceededError | OtherError

definition saveToLocalStorage ::
  "(ChatSession list \<Rightarrow> SetItemResult) \<Rightarrow> World \<Rightarrow> ChatSession list \<Rightarrow> World" where
  "saveToLocalStorage setItem w sessions =
     (case setItem sessions of
        Stored \<Rightarrow> w\<lparr> w_localStorage := Some (SessionsJSON (map Some sessions)) \<rparr>
      | QuotaExceededError \<Rightarrow> w\<lparr> w_state := (w_state w)\<lparr> st_error := Some LocalStorageFull \<rparr> \<rparr>
      | OtherError \<Rightarrow> w\<lparr> w_state := (w_state w)\<lparr> st_error := Some LocalStorageFull \<rparr> \<rparr>)"

definition upsertSession :: "ChatSession \<Rightarrow> ChatSession list \<Rightarrow> ChatSession list" where
  "upsertSession session sessions =
     (if list_ex (\<lambda>s. s_id s = s_id session) sessions
      then map (\<lambda>s. if s_id s = s_id session then session else s) sessions
      else session # sessions)"

text \<open>
  The operations of the hook return the world they leave and how their own promise
  ends. A call that waits for a promise that never settles stops there: what it has
  done so far stays, the rest of its body never runs.
\<close>

definition hook_saveSession ::
  "Fault \<Rightarrow> (ChatSession list \<Rightarrow> SetItemResult) \<Rightarrow> World \<Rightarrow> ChatSession \<Rightarrow> World \<times> Outcome" where
  "hook_saveSession fault setItem w session =
     (if st_storageType (w_state w) = IndexedDB then
        (case try_saveSession fault (w_db w) session of
           (db', outcome) \<Rightarrow>
             (case outcome of
                Resolved \<Rightarrow>
                  (w\<lparr> w_db := db',
                      w_state := (w_state w)
                        \<lparr> st_sessions := upsertSession session (st_sessions (w_state w)) \<rparr> \<rparr>,
                   Resolved)
              | Rejected \<Rightarrow>
                  (saveToLocalStorage setItem (w\<lparr> w_db := db' \<rparr>)
                     (session # filter (\<lambda>s. s_id s \<noteq> s_id session) (st_sessions (w_state w))),
                   Resolved)
              | Pending \<Rightarrow> (w\<lparr> w_db := db' \<rparr>, Pending)))
      else
        (let updatedSessions = upsertSession session (st_sessions (w_state w));
             w' = saveToLocalStorage setItem w updatedSessions
         in (w'\<lparr> w_state := (w_state w')\<lparr> st_sessions := updatedSessions \<rparr> \<rparr>, Resolved)))"

definition hook_loadSession :: "Fault \<Rightarrow> World \<Rightarrow> Date \<Rightarrow> string \<Rightarrow> ChatSession option" where
  "hook_loadSession fault w now sessionId =
     (if st_storageType (w_state w) = IndexedDB then
        (case try_getSessionWithMessages fault (w_db w) now sessionId of
           Inr r \<Rightarrow> r
         | Inl e \<Rightarrow> find (\<lambda>s. s_id s = sessionId) (st_sessions (w_state w)))
      else find (\<lambda>s. s_id s = sessionId) (st_sessions (w_state w)))"

text \<open>The part of \<^verbatim>\<open>deleteSession\<close> of the hook that follows its \<^verbatim>\<open>try\<close> statement.\<close>

definition forgetSession ::
  "(ChatSession list \<Rightarrow> SetItemResult) \<Rightarrow> ChatSession list \<Rightarrow> World \<Rightarrow> string \<Rightarrow> World" where
  "forgetSession setItem sessions w1 sessionId =
     (let updatedSessions = filter (\<lambda>s. s_id s \<noteq> sessionId) sessions;
          w2 = (if st_storageType (w_state w1) = LocalStorage
                then saveToLocalStorage setItem w1 updatedSessions else w1)
      in w2\<lparr> w_state := (w_state w2)\<lparr> st_sessions := updatedSessions \<rparr> \<rparr>)"

definition hook_deleteSession ::
  "Fault \<Rightarrow> (ChatSession list \<Rightarrow> SetItemResult) \<Rightarrow> World \<Rightarrow> string \<Rightarrow> World \<times> Outcome" where
  "hook_deleteSession fault setItem w sessionId =
     (if st_storageType (w_state w) = IndexedDB then
        (case try_deleteSession fault (w_db w) sessionId of
           (db', outcome) \<Rightarrow>
             (case outcome of
                Resolved \<Rightarrow>
                  (forgetSession setItem (st_sessions (w_state w)) (w\<lparr> w_db := db' \<rparr>) sessionId,
                   Resolved)
              | Rejected \<Rightarrow>
                  (forgetSession setItem (st_sessions (w_state w)) (w\<lparr> w_db := db' \<rparr>) sessionId,
                   Resolved)
              | Pending \<Rightarrow> (w\<lparr> w_db := db' \<rparr>, Pending)))
      else (forgetSession setItem (st_sessions (w_state w)) w sessionId, Resolved))"

subsection \<open>Loading the summaries, with repair\<close>

text \<open>
  \<^verbatim>\<open>typeof messageCount !== 'number' || !lastMessagePreview\<close>: the count is not a
  number, or the preview is absent or the empty string.
\<close>

definition needsRepair :: "CompressedSession \<Rightarrow> bool" where
  "needsRepair cs = (c_messageCount cs = None \<or> c_preview cs = None \<or> c_preview cs = Some [])"

text \<open>The session object the callback returns: \<^verbatim>\<open>messageCount || 0\<close>, \<^verbatim>\<open>lastMessagePreview || ''\<close>.\<close>

definition summaryOf :: "CompressedSession \<Rightarrow> nat option \<Rightarrow> string option \<Rightarrow> ChatSession" where
  "summaryOf cs messageCount lastMessagePreview =
     \<lparr> s_id = c_id cs, s_title = c_title cs, s_messages = [],
       s_createdAt = c_createdAt cs, s_updatedAt = c_updatedAt cs,
       s_layoutMode = c_layoutMode cs, s_config = c_config cs,
       s_messageCount = Some (case messageCount of None \<Rightarrow> 0 | Some n \<Rightarrow> n),
       s_lastMessagePreview = Some (case lastMessagePreview of None \<Rightarrow> [] | Some p \<Rightarrow> p) \<rparr>"

text \<open>
  The callback \<^verbatim>\<open>loadSessionsFromIndexedDB\<close> maps over the stored summaries
  (lines 93-132). The two faults are those of its \<^verbatim>\<open>getSessionWithMessages\<close> and
  \<^verbatim>\<open>saveSession\<close> calls; its \<^verbatim>\<open>catch\<close> resets both values. The result is the
  database the callback leaves and the session object it returns, \<open>None\<close> when it waits
  for a \<^verbatim>\<open>saveSession\<close> that never settles.
\<close>

definition summarise ::
  "Fault \<Rightarrow> Fault \<Rightarrow> DB \<Rightarrow> Date \<Rightarrow> CompressedSession \<Rightarrow> DB \<times> ChatSession option" where
  "summarise loadFault saveFault db now cs =
     (if needsRepair cs then
        (case try_getSessionWithMessages loadFault db now (c_id cs) of
           Inl e \<Rightarrow> (db, Some (summaryOf cs (Some 0) (Some [])))
         | Inr None \<Rightarrow> (db, Some (summaryOf cs (c_messageCount cs) (c_preview cs)))
         | Inr (Some fullSession) \<Rightarrow>
             (case try_saveSession saveFault db fullSession of
                (db', outcome) \<Rightarrow>
                  (case outcome of
                     Resolved \<Rightarrow>
                       (db', Some (summaryOf cs (Some (length (s_messages fullSession)))
                                (Some (case preview_of (s_messages fullSession) of
                                         None \<Rightarrow> [] | Some p \<Rightarrow> p))))
                   | Rejected \<Rightarrow> (db', Some (summaryOf cs (Some 0) (Some [])))
                   | Pending \<Rightarrow> (db', None))))
      else (db, Some (summaryOf cs (c_messageCount cs) (c_preview cs))))"

text \<open>
  \<^verbatim>\<open>Promise.all(compressedSessions.map(...))\<close>: the callbacks work on the summaries
  read at the start and on one database; they are taken in list order, and every
  query of one load reads the same clock value. The list of session objects is \<open>None\<close>
  when a callback never returns: then \<^verbatim>\<open>Promise.all\<close> never settles, while the other
  callbacks still do their work.
\<close>

fun summarise_all ::
  "Fault \<Rightarrow> Fault \<Rightarrow> DB \<Rightarrow> Date \<Rightarrow> CompressedSession list \<Rightarrow> DB \<times> ChatSession list option" where
  "summarise_all loadFault saveFault db now [] = (db, Some [])"
| "summarise_all loadFault saveFault db now (cs # rest) =
     (case summarise loadFault saveFault db now cs of
        (db1, r) \<Rightarrow>
          (case summarise_all loadFault saveFault db1 now rest of
             (db2, rs) \<Rightarrow>
               (db2, case r of
                       None \<Rightarrow> None
                     | Some s \<Rightarrow> (case rs of None \<Rightarrow> None | Some ss \<Rightarrow> Some (s # ss)))))"

text \<open>
  An asynchronous operation of the hook that does not resolve: it throws, or it never
  settles; with the world it leaves.
\<close>

datatype Unsettled = Throws World | Hangs World

text \<open>
  \<^verbatim>\<open>loadSessionsFromIndexedDB\<close> rethrows a failure of \<^verbatim>\<open>getAllSessions\<close>
  (\<open>listFails\<close>); the state is then left as it was.
\<close>

definition loadSessionsFromIndexedDB ::
  "bool \<Rightarrow> Fault \<Rightarrow> Fault \<Rightarrow> World \<Rightarrow> Date \<Rightarrow> Unsettled + World" where
  "loadSessionsFromIndexedDB listFails loadFault saveFault w now =
     (if listFails then Inl (Throws w)
      else
        (case summarise_all loadFault saveFault (w_db w) now (getAllSessions (w_db w)) of
           (db', r) \<Rightarrow>
             (case r of
                None \<Rightarrow> Inl (Hangs (w\<lparr> w_db := db' \<rparr>))
              | Some sessions \<Rightarrow>
                  Inr (w\<lparr> w_db := db', w_state := (w_state w)\<lparr> st_sessions := sessions \<rparr> \<rparr>))))"

definition loadSessionsFromLocalStorage :: "World \<Rightarrow> World" where
  "loadSessionsFromLocalStorage w =
     (case w_localStorage w of
        None \<Rightarrow> w
      | Some Unparsable \<Rightarrow> w
      | Some (SessionsJSON entries) \<Rightarrow>
          if list_all (\<lambda>e. e \<noteq> None) entries
          then w\<lparr> w_state := (w_state w)\<lparr> st_sessions := map the entries \<rparr> \<rparr>
          else w)"

definition refreshSessions ::
  "bool \<Rightarrow> Fault \<Rightarrow> Fault \<Rightarrow> World \<Rightarrow> Date \<Rightarrow> Unsettled + World" where
  "refreshSessions listFails loadFault saveFault w now =
     (if st_storageType (w_state w) = IndexedDB
      then loadSessionsFromIndexedDB listFails loadFault saveFault w now
      else Inr (loadSessionsFromLocalStorage w))"

subsection \<open>Migration at start-up and on request\<close>

text \<open>
  The migration step of \<^verbatim>\<open>initializeStorage\<close>, run once IndexedDB is open: when the
  slot holds data, call \<^verbatim>\<open>migrateFromLocalStorage\<close>, then remove the key.
\<close>

definition migrateIfNeeded :: "World \<Rightarrow> World" where
  "migrateIfNeeded w =
     (case w_localStorage w of
        None \<Rightarrow> w
      | Some localStorageData \<Rightarrow>
          w\<lparr> w_db := migrateFromLocalStorage (w_db w) (w_localStorage w), w_localStorage := None \<rparr>)"

text \<open>
  \<^verbatim>\<open>initializeStorage\<close>, given whether IndexedDB is available and whether opening it
  fails. A failure in the \<^verbatim>\<open>try\<close> block sends it to the \<^verbatim>\<open>catch\<close> branch, which
  records the error, switches to localStorage and loads from there. The
  \<^verbatim>\<open>finally\<close> block does not run when the load never settles.
\<close>

definition initializeStorage ::
  "bool \<Rightarrow> bool \<Rightarrow> bool \<Rightarrow> Fault \<Rightarrow> Fault \<Rightarrow> World \<Rightarrow> Date \<Rightarrow> World" where
  "initializeStorage indexedDBAvailable openFails listFails loadFault saveFault w now =
     (let w0 = w\<lparr> w_state := (w_state w)\<lparr> st_isLoading := True, st_error := None \<rparr> \<rparr>;
          catch = (\<lambda>v. loadSessionsFromLocalStorage
                     (v\<lparr> w_state := (w_state v)\<lparr> st_error := Some StorageInitFailed,
                                                 st_storageType := LocalStorage \<rparr> \<rparr>));
          finally = (\<lambda>v. v\<lparr> w_state := (w_state v)\<lparr> st_isLoading := False \<rparr> \<rparr>)
      in if indexedDBAvailable then
           (if openFails then finally (catch w0)
            else
              (let w' = migrateIfNeeded w0;
                   w'' = w'\<lparr> w_state := (w_state w')\<lparr> st_storageType := IndexedDB \<rparr> \<rparr>
               in case loadSessionsFromIndexedDB listFails loadFault saveFault w'' now of
                    Inr v \<Rightarrow> finally v
                  | Inl u \<Rightarrow> (case u of Throws v \<Rightarrow> finally (catch v) | Hangs v \<Rightarrow> v)))
         else
           finally (loadSessionsFromLocalStorage
                      (w0\<lparr> w_state := (w_state w0)\<lparr> st_storageType := LocalStorage \<rparr> \<rparr>)))"

text \<open>
  \<^verbatim>\<open>migrateData\<close>, the migration the hook offers to its caller; it rethrows a
  failure of the refresh.
\<close>

definition migrateData ::
  "bool \<Rightarrow> Fault \<Rightarrow> Fault \<Rightarrow> World \<Rightarrow> Date \<Rightarrow> Unsettled + World" where
  "migrateData listFails loadFault saveFault w now =
     (if st_storageType (w_state w) = IndexedDB
      then refreshSessions listFails loadFault saveFault
             (w\<lparr> w_db := migrateFromLocalStorage (w_db w) (w_localStorage w) \<rparr>) now
      else Inr w)"

section \<open>Saving the session list from the page\<close>

text \<open>
  The history panel (\<^verbatim>\<open>HistoryModal\<close>, line 37 of \<^verbatim>\<open>src/unnamed/part_005\<close>) begins
  every render with
  \<^verbatim>\<open>sessions.sort((a, b) => b.updatedAt.getTime() - a.updatedAt.getTime())\<close>.
  \<^verbatim>\<open>Array.prototype.sort\<close> sorts in place, the array is the one of the hook's state
  (\<^verbatim>\<open>sessions={sessions}\<close> with \<^verbatim>\<open>sessions = storage.sessions\<close>), and the page
  renders the panel unconditionally (line 2477 of \<^verbatim>\<open>src/unnamed/part_009\<close>). So a
  render leaves the list of the state sorted by \<^verbatim>\<open>updatedAt\<close>, latest first, and the
  effects of the page, which run after the render, find it so.
\<close>

definition renderHistoryModal :: "World \<Rightarrow> World" where
  "renderHistoryModal w =
     w\<lparr> w_state := (w_state w)
          \<lparr> st_sessions := sort_key (\<lambda>s. - s_updatedAt s) (st_sessions (w_state w)) \<rparr> \<rparr>"

text \<open>
  The effect of the chat page (lines 269-323 of the page component,
  \<^verbatim>\<open>src/unnamed/part_009\<close>) that writes \<^verbatim>\<open>storage.sessions\<close> to the key
  \<^verbatim>\<open>chatvortex-sessions\<close> whenever the list changes. On a
  \<^verbatim>\<open>QuotaExceededError\<close> it writes \<^verbatim>\<open>sessions.slice(0, 6)\<close> instead, asks the hook to
  refresh (not awaited, so a refresh that throws or never settles changes no more than
  it has done by then) and forgets the current session when it is no longer in the list
  (\<^verbatim>\<open>currentSessionId && !recentSessions.some(...)\<close>; the empty string is falsy).
  A failure of the second write is logged. What the effect does before the write (it
  measures the usage of localStorage and logs) changes nothing. The result is the world
  and the page's \<^verbatim>\<open>currentSessionId\<close>.
\<close>

definition saveSessionsEffect ::
  "bool \<Rightarrow> (ChatSession list \<Rightarrow> SetItemResult) \<Rightarrow> bool \<Rightarrow> Fault \<Rightarrow> Fault \<Rightarrow> Date
     \<Rightarrow> World \<Rightarrow> string option \<Rightarrow> World \<times> string option" where
  "saveSessionsEffect isMounted setItem listFails loadFault saveFault now w currentSessionId =
     (let sessions = st_sessions (w_state w) in
      if \<not> isMounted then (w, currentSessionId)
      else
        (case setItem sessions of
           Stored \<Rightarrow> (w\<lparr> w_localStorage := Some (SessionsJSON (map Some sessions)) \<rparr>, currentSessionId)
         | OtherError \<Rightarrow> (w, currentSessionId)
         | QuotaExceededError \<Rightarrow>
             (let recentSessions = take 6 sessions in
              case setItem recentSessions of
                Stored \<Rightarrow>
                  (let w' = w\<lparr> w_localStorage := Some (SessionsJSON (map Some recentSessions)) \<rparr>;
                       w'' = (case refreshSessions listFails loadFault saveFault w' now of
                                Inr v \<Rightarrow> v
                              | Inl u \<Rightarrow> (case u of Throws v \<Rightarrow> v | Hangs v \<Rightarrow> v))
                   in (w'', case currentSessionId of
                              None \<Rightarrow> None
                            | Some c \<Rightarrow> if c \<noteq> [] \<and> \<not> list_ex (\<lambda>s. s_id s = c) recentSessions
                                        then None else Some c))
              | QuotaExceededError \<Rightarrow> (w, currentSessionId)
              | OtherError \<Rightarrow> (w, currentSessionId))))"

text \<open>The effect as it runs: after the render that sorted the list.\<close>

definition saveSessionsAfterRender ::
  "bool \<Rightarrow> (ChatSession list \<Rightarrow> SetItemResult) \<Rightarrow> bool \<Rightarrow> Fault \<Rightarrow> Fault \<Rightarrow> Date
     \<Rightarrow> World \<Rightarrow> string option \<Rightarrow> World \<times> string option" where
  "saveSessionsAfterRender isMounted setItem listFails loadFault saveFault now w currentSessionId =
     saveSessionsEffect isMounted setItem listFails loadFault saveFault now
       (renderHistoryModal w) currentSessionId"

section \<open>The model-list cache\<close>

text \<open>
  \<^verbatim>\<open>modelsCache\<close>, \<^verbatim>\<open>loadModelsCache\<close>, \<^verbatim>\<open>saveModelsCache\<close> and
  \<^verbatim>\<open>fetchAvailableModels\<close> of the API module (lines 319-484 of
  \<^verbatim>\<open>src/unnamed/part_003\<close>), with the time \<^verbatim>\<open>Date.now()\<close> of the call as a parameter.
\<close>

record ModelInfo =
  mi_id :: string
  mi_object :: string
  mi_created :: int
  mi_owned_by :: string

record ModelsCache =
  mc_data :: "ModelInfo list"
  mc_timestamp :: int
  mc_cacheKey :: string

definition CACHE_DURATION :: int where
  "CACHE_DURATION = 24 * 60 * 60 * 1000"

text \<open>
  The module variable \<^verbatim>\<open>modelsCache\<close> and what the key \<^verbatim>\<open>chatvortex-models-cache\<close>
  of localStorage parses to (\<open>None\<close>: absent, unparsable or without \<^verbatim>\<open>data\<close>).
\<close>

record CacheState =
  modelsCache :: "ModelsCache option"
  cacheStorage :: "ModelsCache option"

text \<open>\<^verbatim>\<open>parsed.data && parsed.timestamp && parsed.cacheKey\<close>: 0 and the empty string are falsy.\<close>

definition loadModelsCache :: "ModelsCache option \<Rightarrow> ModelsCache option" where
  "loadModelsCache cached =
     (case cached of
        None \<Rightarrow> None
      | Some parsed \<Rightarrow> if mc_timestamp parsed \<noteq> 0 \<and> mc_cacheKey parsed \<noteq> [] then Some parsed else None)"

text \<open>\<^verbatim>\<open>saveModelsCache\<close>; a failing \<^verbatim>\<open>setItem\<close> is logged.\<close>

definition saveModelsCache :: "bool \<Rightarrow> CacheState \<Rightarrow> CacheState" where
  "saveModelsCache writeOk st =
     (case modelsCache st of
        None \<Rightarrow> st
      | Some cache \<Rightarrow> if writeOk then st\<lparr> cacheStorage := Some cache \<rparr> else st)"

text \<open>\<^verbatim>\<open>`${apiKey.slice(-10)}_${baseUrl}`\<close>\<close>

definition cacheKeyOf :: "string \<Rightarrow> string \<Rightarrow> string" where
  "cacheKeyOf apiKey baseUrl = drop (length apiKey - 10) apiKey @ ''_'' @ baseUrl"

text \<open>
  How a call of \<^verbatim>\<open>fetchAvailableModels\<close> ends: it throws before anything else
  because the key is empty; it returns the cached list without a request; it sends the
  request and returns the list built from the response; or it sends the request and
  throws (network failure, a status that is not ok).
\<close>

datatype FetchOutcome =
    ApiKeyMissing
  | FromCache "ModelInfo list"
  | Fetched "ModelInfo list"
  | FetchFailed

text \<open>
  The test \<^verbatim>\<open>modelsCache && modelsCache.cacheKey === cacheKey &&
  (now - modelsCache.timestamp) < CACHE_DURATION\<close>, giving the cache when it passes.
  In \<open>fetchAvailableModels\<close>, \<open>response\<close> is the \<^verbatim>\<open>data\<close> array of a successful
  response, \<open>None\<close> when the request fails, and \<open>chatModelsOf\<close> stands for the
  filtering, de-duplication and sorting of that array, whose result the cache stores
  as it comes.
\<close>

definition validCache :: "ModelsCache option \<Rightarrow> string \<Rightarrow> int \<Rightarrow> ModelsCache option" where
  "validCache cache cacheKey now =
     (case cache of
        None \<Rightarrow> None
      | Some c \<Rightarrow> if mc_cacheKey c = cacheKey \<and> now - mc_timestamp c < CACHE_DURATION
                  then Some c else None)"

text \<open>\<^verbatim>\<open>if (!modelsCache) { modelsCache = loadModelsCache(); }\<close>\<close>

definition ensureModelsCache :: "CacheState \<Rightarrow> CacheState" where
  "ensureModelsCache st =
     (if modelsCache st = None then st\<lparr> modelsCache := loadModelsCache (cacheStorage st) \<rparr> else st)"

definition fetchAvailableModels ::
  "(ModelInfo list \<Rightarrow> ModelInfo list) \<Rightarrow> ModelInfo list option \<Rightarrow> bool \<Rightarrow> int
     \<Rightarrow> CacheState \<Rightarrow> string \<Rightarrow> string \<Rightarrow> CacheState \<times> FetchOutcome" where
  "fetchAvailableModels chatModelsOf response writeOk now st apiKey baseUrl =
     (if apiKey = [] then (st, ApiKeyMissing)
      else
        (let cacheKey = cacheKeyOf apiKey baseUrl;
             st1 = ensureModelsCache st
         in case validCache (modelsCache st1) cacheKey now of
              Some cache \<Rightarrow> (st1, FromCache (mc_data cache))
            | None \<Rightarrow>
                (case response of
                   None \<Rightarrow> (st1, FetchFailed)
                 | Some data \<Rightarrow>
                     (saveModelsCache writeOk
                        (st1\<lparr> modelsCache := Some \<lparr> mc_data = chatModelsOf data,
                                                  mc_timestamp = now, mc_cacheKey = cacheKey \<rparr> \<rparr>),
                      Fetched (chatModelsOf data)))))"

section \<open>Example data\<close>

definition empty_db :: DB where
  "empty_db = \<lparr> SESSIONS_STORE = [], MESSAGES_STORE = [] \<rparr>"

definition ex_message :: "string \<Rightarrow> string \<Rightarrow> Date \<Rightarrow> Message" where
  "ex_message i c t =
     \<lparr> m_id = i, m_content = c, m_role = User, m_timestamp = t,
       m_isTyping = None, m_isStreaming = None \<rparr>"

definition ex_session :: "string \<Rightarrow> Date \<Rightarrow> Message list \<Rightarrow> ChatSession" where
  "ex_session i u ms =
     \<lparr> s_id = i, s_title = ''hello'', s_messages = ms, s_createdAt = 0, s_updatedAt = u,
       s_layoutMode = None, s_config = None, s_messageCount = None,
       s_lastMessagePreview = None \<rparr>"

text \<open>Scenario B: a session with 7 messages, one per second, saved into an empty database.\<close>

definition scenarioB_session :: ChatSession where
  "scenarioB_session = ex_session ''S1'' 7000
     [ex_message ''m1'' ''a'' 1000, ex_message ''m2'' ''b'' 2000, ex_message ''m3'' ''c'' 3000,
      ex_message ''m4'' ''d'' 4000, ex_message ''m5'' ''e'' 5000, ex_message ''m6'' ''f'' 6000,
      ex_message ''m7'' ''g'' 7000]"

definition scenarioB_db :: DB where
  "scenarioB_db = saveSession empty_db scenarioB_session"

text \<open>
  Scenario C: 8 sessions in the order in which the hook leaves the in-memory list,
  newest created first; the two oldest have been used again since, so they are the
  most recently updated. A render of the history panel sorts the list.
\<close>

definition scenarioC_sessions :: "ChatSession list" where
  "scenarioC_sessions =
     [ex_session ''A8'' 8 [], ex_session ''A7'' 7 [], ex_session ''A6'' 6 [],
      ex_session ''A5'' 5 [], ex_session ''A4'' 4 [], ex_session ''A3'' 3 [],
      ex_session ''A2'' 20 [], ex_session ''A1'' 10 []]"

definition ex_world :: "StorageType \<Rightarrow> ChatSession list \<Rightarrow> DB \<Rightarrow> StoredText option \<Rightarrow> World" where
  "ex_world ty sessions db slot =
     \<lparr> w_state = \<lparr> st_sessions = sessions, st_isLoading = False, st_error = None,
                   st_storageType = ty \<rparr>,
       w_db = db, w_localStorage = slot \<rparr>"

text \<open>A quota that admits at most \<open>n\<close> sessions.\<close>

definition quota_of :: "nat \<Rightarrow> ChatSession list \<Rightarrow> SetItemResult" where
  "quota_of n sessions = (if length sessions \<le> n then Stored else QuotaExceededError)"

definition ex_model :: "string \<Rightarrow> ModelInfo" where
  "ex_model i = \<lparr> mi_id = i, mi_object = ''model'', mi_created = 0, mi_owned_by = ''openai'' \<rparr>"

text \<open>Scenario A: the session \<open>S1\<close> titled \<open>hello\<close> with the messages \<open>hi\<close> and \<open>hello!\<close>.\<close>

definition scenarioA_session :: ChatSession where
  "scenarioA_session = ex_session ''S1'' 2000
     [ex_message ''m1'' ''hi'' 1000, ex_message ''m2'' ''hello!'' 2000]"

text \<open>The database of scenario A with a summary that has lost its count and its preview.\<close>

definition stale_db :: DB where
  "stale_db = (saveSession empty_db scenarioA_session)
     \<lparr> SESSIONS_STORE := [(compress scenarioA_session)\<lparr> c_messageCount := None, c_preview := None \<rparr>] \<rparr>"

text \<open>
  A session whose one message has empty content and is dated 7000, later than the
  load at 5000 in the examples.
\<close>

definition future_db :: DB where
  "future_db = saveSession empty_db (ex_session ''S1'' 7000 [ex_message ''m7'' [] 7000])"

text \<open>A cache written to localStorage at time 1000 for the key \<open>sk-1\<close> and the URL \<open>https://api\<close>.\<close>

definition ex_cache :: CacheState where
  "ex_cache =
     \<lparr> modelsCache = None,
       cacheStorage = Some \<lparr> mc_data = [ex_model ''gpt-4''], mc_timestamp = 1000,
                             mc_cacheKey = ''sk-1_https://api'' \<rparr> \<rparr>"

section \<open>Properties\<close>

subsection \<open>Evaluating the examples\<close>

lemmas example_defs = empty_db_def ex_message_def ex_session_def scenarioB_session_def
  scenarioB_db_def scenarioC_sessions_def ex_world_def quota_of_def ex_model_def
  scenarioA_session_def stale_db_def ex_cache_def

lemmas storage_defs = getSessionMessages_def getSessionWithMessages_def fullSessionMessages_def
  saveSession_def sessionTimestamp_getAll_def store_put_def store_get_def messageWithSession_def
  sm_id_def sm_timestamp_def compress_def preview_of_def lastMessageId_of_def getAllSessions_def

subsection \<open>Range scans\<close>

lemma sessionTimestamp_getAll_subset:
  "set (sessionTimestamp_getAll store sid lo hi cnt)
     \<subseteq> {r \<in> set store. sm_sessionId r = sid \<and> lo \<le> sm_timestamp r \<and> sm_timestamp r \<le> hi}"
  by (auto simp: sessionTimestamp_getAll_def Let_def split: option.splits dest: in_set_takeD)

lemma sessionTimestamp_getAll_all:
  "set (sessionTimestamp_getAll store sid lo hi None)
     = {r \<in> set store. sm_sessionId r = sid \<and> lo \<le> sm_timestamp r \<and> sm_timestamp r \<le> hi}"
  by (auto simp: sessionTimestamp_getAll_def)

lemma messageWithSession_stored: "messageWithSession (sm_sessionId r) (sm_message r) = r"
  by (simp add: messageWithSession_def)

lemma fullSessionMessages_set:
  "set (fullSessionMessages store now sid)
     = sm_message ` {r \<in> set store. sm_sessionId r = sid \<and> 0 \<le> sm_timestamp r \<and> sm_timestamp r \<le> now}"
  by (simp add: fullSessionMessages_def sessionTimestamp_getAll_all)

lemma getSessionWithMessages_messages:
  "getSessionWithMessages db now sid = Some s \<Longrightarrow>
     s_messages s = fullSessionMessages (MESSAGES_STORE db) now sid"
  by (auto simp: getSessionWithMessages_def split: option.splits)

lemma getSessionMessages_subset:
  "set (getSessionMessages db now sid limit before)
     \<subseteq> sm_message ` {r \<in> set (MESSAGES_STORE db). sm_sessionId r = sid \<and> 0 \<le> sm_timestamp r
            \<and> sm_timestamp r \<le> (case before of None \<Rightarrow> now | Some b \<Rightarrow> b)}"
proof -
  have "set (getSessionMessages db now sid limit before)
      \<subseteq> sm_message ` set (sessionTimestamp_getAll (MESSAGES_STORE db) sid 0
            (case before of None \<Rightarrow> now | Some b \<Rightarrow> b) (Some limit))"
    by (auto simp: getSessionMessages_def Let_def dest: in_set_takeD)
  with sessionTimestamp_getAll_subset show ?thesis by blast
qed


lemma scenarioB_store:
  "messageWithSession ''S1'' (ex_message ''m7'' ''g'' 7000) \<in> set (MESSAGES_STORE scenarioB_db)
   \<and> messageWithSession ''S1'' (ex_message ''m2'' ''b'' 2000) \<in> set (MESSAGES_STORE scenarioB_db)"
  by (simp add: example_defs storage_defs)

lemma scenarioB_early_page:
  "getSessionMessages scenarioB_db 2500 ''S1'' 3 None
     = [ex_message ''m2'' ''b'' 2000, ex_message ''m1'' ''a'' 1000]"
  by (simp add: example_defs storage_defs)

lemma scenarioB_early_load:
  "getSessionWithMessages scenarioB_db 2500 ''S1''
     = Some (ex_session ''S1'' 7000 [ex_message ''m1'' ''a'' 1000, ex_message ''m2'' ''b'' 2000])"
  by (simp add: example_defs storage_defs)

text \<open>
  C10. The range scans of \<open>getSessionWithMessages\<close>, and of \<open>getSessionMessages\<close> called
  without \<open>before\<close>, end at the time of the call: a stored message of the session
  whose timestamp is later than that time is in neither result, and every message
  returned has a timestamp that is not later.
\<close>

theorem future_message_never_returned:
  assumes "r \<in> set (MESSAGES_STORE db)" and "sm_sessionId r = sid" and "now < sm_timestamp r"
  shows "(\<forall>s. getSessionWithMessages db now sid = Some s \<longrightarrow>
            (\<forall>m \<in> set (s_messages s). m_timestamp m \<le> now) \<and> sm_message r \<notin> set (s_messages s))
       \<and> (\<forall>m \<in> set (getSessionMessages db now sid limit None). m_timestamp m \<le> now)
       \<and> sm_message r \<notin> set (getSessionMessages db now sid limit None)"
proof -
  have a: "m_timestamp m \<le> now"
    if "getSessionWithMessages db now sid = Some s" "m \<in> set (s_messages s)" for s m
    using that fullSessionMessages_set[of "MESSAGES_STORE db" now sid]
    by (auto simp: getSessionWithMessages_messages sm_timestamp_def)
  have b: "m_timestamp m \<le> now" if "m \<in> set (getSessionMessages db now sid limit None)" for m
    using getSessionMessages_subset[of db now sid limit None] that by (auto simp: sm_timestamp_def)
  from a b assms(3) show ?thesis unfolding sm_timestamp_def by fastforce
qed

theorem future_message_never_returned_witness:
  "messageWithSession ''S1'' (ex_message ''m7'' ''g'' 7000) \<in> set (MESSAGES_STORE scenarioB_db)
   \<and> getSessionWithMessages scenarioB_db 2500 ''S1''
       = Some (ex_session ''S1'' 7000 [ex_message ''m1'' ''a'' 1000, ex_message ''m2'' ''b'' 2000])
   \<and> ex_message ''m7'' ''g'' 7000 \<notin> set (getSessionMessages scenarioB_db 2500 ''S1'' 3 None)
   \<and> ex_message ''m2'' ''b'' 2000 \<in> set (getSessionMessages scenarioB_db 2500 ''S1'' 3 None)"
proof -
  let ?r = "messageWithSession ''S1'' (ex_message ''m7'' ''g'' 7000)"
  have r: "?r \<in> set (MESSAGES_STORE scenarioB_db)" using scenarioB_store by simp
  have s: "sm_sessionId ?r = ''S1''" and t: "2500 < sm_timestamp ?r" and m: "sm_message ?r = ex_message ''m7'' ''g'' 7000"
    by (simp_all add: messageWithSession_def sm_timestamp_def ex_message_def)
  from future_message_never_returned[OF r s t, of 3] r scenarioB_early_load
  show ?thesis by (simp add: m scenarioB_early_page)
qed








text \<open>
  Whatever the time of the call and whatever the cursor, a page of 3 of scenario B
  holds none but the three oldest messages.
\<close>

lemma scenarioB_pages_oldest:
  "set (getSessionMessages scenarioB_db now ''S1'' 3 before)
     \<subseteq> {ex_message ''m1'' ''a'' 1000, ex_message ''m2'' ''b'' 2000, ex_message ''m3'' ''c'' 3000}"
proof -
  define ub where "ub = (case before of None \<Rightarrow> now | Some b \<Rightarrow> b)"
  consider "ub < 1000" | "1000 \<le> ub" "ub < 2000" | "2000 \<le> ub" "ub < 3000"
    | "3000 \<le> ub" "ub < 4000" | "4000 \<le> ub" "ub < 5000" | "5000 \<le> ub" "ub < 6000"
    | "6000 \<le> ub" "ub < 7000" | "7000 \<le> ub"
    by linarith
  then have "set (map sm_message
        (sessionTimestamp_getAll (MESSAGES_STORE scenarioB_db) ''S1'' 0 ub (Some 3)))
     \<subseteq> {ex_message ''m1'' ''a'' 1000, ex_message ''m2'' ''b'' 2000, ex_message ''m3'' ''c'' 3000}"
    by cases (simp_all add: example_defs storage_defs)
  moreover have "set (getSessionMessages scenarioB_db now ''S1'' 3 before)
      \<subseteq> set (map sm_message
            (sessionTimestamp_getAll (MESSAGES_STORE scenarioB_db) ''S1'' 0 ub (Some 3)))"
    unfolding getSessionMessages_def Let_def ub_def[symmetric]
    using set_take_subset[of 3 "sort_key (\<lambda>m. - m_timestamp m)
        (map sm_message (sessionTimestamp_getAll (MESSAGES_STORE scenarioB_db) ''S1'' 0 ub (Some 3)))"]
    by simp
  ultimately show ?thesis by blast
qed

text \<open>
  C3. On scenario B the chain of pages does not advance: the first page holds the
  three oldest of the 7 messages, and the page asked for with \<open>before\<close> set to the
  oldest timestamp returned (1000) holds the oldest message again and nothing else.
  Every later call has the same arguments; and no page of 3, whatever its cursor, holds
  one of the four most recent messages.
\<close>

theorem pagination_stuck_at_oldest:
  "getSessionMessages scenarioB_db 10000 ''S1'' 3 None
     = [ex_message ''m3'' ''c'' 3000, ex_message ''m2'' ''b'' 2000, ex_message ''m1'' ''a'' 1000]
   \<and> m_timestamp (last (getSessionMessages scenarioB_db 10000 ''S1'' 3 None)) = 1000
   \<and> getSessionMessages scenarioB_db 10000 ''S1'' 3 (Some 1000) = [ex_message ''m1'' ''a'' 1000]
   \<and> length (s_messages scenarioB_session) = 7
   \<and> set (getSessionMessages scenarioB_db now ''S1'' 3 before)
       \<subseteq> {ex_message ''m1'' ''a'' 1000, ex_message ''m2'' ''b'' 2000, ex_message ''m3'' ''c'' 3000}"
proof -
  have "getSessionMessages scenarioB_db 10000 ''S1'' 3 None
      = [ex_message ''m3'' ''c'' 3000, ex_message ''m2'' ''b'' 2000, ex_message ''m1'' ''a'' 1000]"
    "getSessionMessages scenarioB_db 10000 ''S1'' 3 (Some 1000) = [ex_message ''m1'' ''a'' 1000]"
    "length (s_messages scenarioB_session) = 7"
    by (simp_all add: example_defs storage_defs)
  with scenarioB_pages_oldest[of now before] show ?thesis by (simp add: ex_message_def)
qed

subsection \<open>Object stores\<close>

lemma store_get_key: "store_get key store k = Some r \<Longrightarrow> key r = k"
  by (auto simp: store_get_def find_Some_iff)

lemma store_get_store_put:
  "store_get key (store_put key r store) k = (if k = key r then Some r else store_get key store k)"
proof -
  have "find (\<lambda>x. key x = k) (filter (\<lambda>x. key x \<noteq> key r) store) = find (\<lambda>x. key x = k) store"
    if "k \<noteq> key r"
    using that by (induction store) auto
  then show ?thesis by (auto simp: store_get_def store_put_def)
qed

lemma store_get_member:
  "distinct (map key store) \<Longrightarrow> r \<in> set store \<Longrightarrow> store_get key store (key r) = Some r"
  by (induction store) (auto simp: store_get_def)

lemma store_put_distinct:
  "distinct (map key xs) \<Longrightarrow> distinct (map key (store_put key r xs))"
  by (auto simp: store_put_def distinct_map_filter)

lemma fold_store_put_distinct_keys:
  "distinct (map key P) \<Longrightarrow>
     fold (store_put key) P xs = rev P @ filter (\<lambda>x. key x \<notin> key ` set P) xs"
proof (induction P arbitrary: xs)
  case Nil
  then show ?case by simp
next
  case (Cons a P)
  have "filter (\<lambda>x. key x \<notin> key ` set P) (store_put key a xs)
      = a # filter (\<lambda>x. key x \<notin> key ` set (a # P)) xs"
    using Cons.prems by (auto simp: store_put_def intro: filter_cong)
  with Cons show ?case by simp
qed

lemma saveSession_puts:
  "saveSession db s =
     \<lparr> SESSIONS_STORE = store_put c_id (compress s) (SESSIONS_STORE db),
       MESSAGES_STORE = fold (store_put sm_id) (map (messageWithSession (s_id s)) (s_messages s))
                          (MESSAGES_STORE db) \<rparr>"
  by (simp add: saveSession_def fold_map comp_def)

lemma saveSession_wf: "wf_db db \<Longrightarrow> wf_db (saveSession db s)"
proof -
  have "distinct (map sm_id (fold (store_put sm_id) P xs))" if "distinct (map sm_id xs)" for P xs
    using that by (induction P arbitrary: xs) (simp_all add: store_put_distinct)
  then show "wf_db db \<Longrightarrow> wf_db (saveSession db s)"
    by (simp add: wf_db_def saveSession_puts store_put_distinct)
qed

subsection \<open>Saving and loading a session\<close>

lemma saved_messages_store:
  assumes "distinct (map m_id ms)"
  shows "fold (store_put sm_id) (map (messageWithSession sid) ms) store
       = rev (map (messageWithSession sid) ms) @ filter (\<lambda>x. sm_id x \<notin> m_id ` set ms) store"
proof -
  have k: "map sm_id (map (messageWithSession sid) ms) = map m_id ms"
    by (simp add: sm_id_def messageWithSession_def)
  then have i: "sm_id ` set (map (messageWithSession sid) ms) = m_id ` set ms"
    by (metis list.set_map)
  have "distinct (map sm_id (map (messageWithSession sid) ms))"
    using assms by (simp only: k)
  from fold_store_put_distinct_keys[OF this] show ?thesis
    by (simp only: i)
qed

lemma range_scan_after_save:
  assumes d: "distinct (map m_id ms)"
    and t: "\<forall>m \<in> set ms. 0 \<le> m_timestamp m \<and> m_timestamp m \<le> now"
    and stale: "\<forall>r \<in> set store. sm_sessionId r = sid \<longrightarrow> sm_id r \<in> m_id ` set ms"
  shows "mset (fullSessionMessages
            (fold (store_put sm_id) (map (messageWithSession sid) ms) store) now sid) = mset ms"
proof -
  let ?P = "\<lambda>r. sm_sessionId r = sid \<and> 0 \<le> sm_timestamp r \<and> sm_timestamp r \<le> now"
  have a: "filter ?P (rev (map (messageWithSession sid) ms)) = rev (map (messageWithSession sid) ms)"
    using t by (auto simp: messageWithSession_def sm_timestamp_def)
  have b: "filter ?P (filter (\<lambda>x. sm_id x \<notin> m_id ` set ms) store) = []"
    using stale by (auto simp: filter_empty_conv)
  have "mset (map sm_message (rev (map (messageWithSession sid) ms))) = mset ms"
    by (simp add: comp_def messageWithSession_def flip: rev_map)
  then show ?thesis
    unfolding saved_messages_store[OF d] fullSessionMessages_def sessionTimestamp_getAll_def Let_def
    by (simp only: filter_append a b option.case append_Nil2 mset_map mset_sort)
qed

text \<open>
  C1, as amended. Let the messages of \<open>s\<close> have distinct ids and timestamps between the
  epoch and the time \<open>now\<close> of the load, and let the store hold no message of this
  session id other than under ids of messages of \<open>s\<close>. Then loading \<open>s_id s\<close> after
  \<open>saveSession s\<close> returns a session with the id, title, dates, layout mode and config
  of \<open>s\<close>, without the two optional summary fields, whose messages are those of \<open>s\<close>
  in ascending order of timestamp, whatever their order in \<open>s\<close>.
\<close>

theorem save_then_load:
  assumes "distinct (map m_id (s_messages s))"
    and "\<forall>m \<in> set (s_messages s). 0 \<le> m_timestamp m \<and> m_timestamp m \<le> now"
    and "\<forall>r \<in> set (MESSAGES_STORE db). sm_sessionId r = s_id s \<longrightarrow> sm_id r \<in> m_id ` set (s_messages s)"
  shows "\<exists>s'. getSessionWithMessages (saveSession db s) now (s_id s) = Some s'
           \<and> s' = s\<lparr> s_messages := s_messages s', s_messageCount := None, s_lastMessagePreview := None \<rparr>
           \<and> mset (s_messages s') = mset (s_messages s)
           \<and> sorted (map m_timestamp (s_messages s'))"
proof -
  have g: "store_get c_id (SESSIONS_STORE (saveSession db s)) (s_id s) = Some (compress s)"
    by (simp add: saveSession_puts store_get_store_put compress_def)
  define s' where "s' = the (getSessionWithMessages (saveSession db s) now (s_id s))"
  have l: "getSessionWithMessages (saveSession db s) now (s_id s) = Some s'"
    unfolding s'_def getSessionWithMessages_def g by simp
  have msgs: "s_messages s' = fullSessionMessages (MESSAGES_STORE (saveSession db s)) now (s_id s)"
    using l by (rule getSessionWithMessages_messages)
  have eq: "s' = s\<lparr> s_messages := s_messages s', s_messageCount := None, s_lastMessagePreview := None \<rparr>"
    unfolding s'_def getSessionWithMessages_def g by (simp add: compress_def)
  have "mset (s_messages s') = mset (s_messages s)"
    unfolding msgs using range_scan_after_save[OF assms] by (simp add: saveSession_puts)
  moreover have "sorted (map m_timestamp (s_messages s'))"
    unfolding msgs fullSessionMessages_def by (rule sorted_sort_key)
  ultimately show ?thesis using l eq by blast
qed

theorem save_then_load_witness:
  "\<exists>s'. getSessionWithMessages
            (saveSession scenarioB_db (scenarioB_session\<lparr> s_messages := rev (s_messages scenarioB_session) \<rparr>))
            10000 ''S1'' = Some s'
     \<and> s_messages s' = s_messages scenarioB_session
     \<and> s_title s' = ''hello''"
  using save_then_load[of "scenarioB_session\<lparr> s_messages := rev (s_messages scenarioB_session) \<rparr>"
      10000 scenarioB_db]
  by (simp add: example_defs storage_defs)

text \<open>
  The claim C1 as it is written fails where a hypothesis of the amended claim does.
  A message saved earlier and then dropped from the session comes back; a message
  dated after the load is missing; of two messages with one id the later put stays;
  and a summary field of the session is not returned.
\<close>

theorem save_then_load_counterexample:
  "getSessionWithMessages
      (saveSession
         (saveSession empty_db
            (ex_session ''S1'' 1 [ex_message ''m1'' ''a'' 1000, ex_message ''m2'' ''b'' 2000]))
         (ex_session ''S1'' 2 [ex_message ''m1'' ''a'' 1000]))
      10000 ''S1''
     = Some (ex_session ''S1'' 2 [ex_message ''m1'' ''a'' 1000, ex_message ''m2'' ''b'' 2000])
   \<and> getSessionWithMessages
        (saveSession empty_db (ex_session ''S1'' 2 [ex_message ''m7'' ''g'' 7000])) 2500 ''S1''
     = Some (ex_session ''S1'' 2 [])
   \<and> getSessionWithMessages
        (saveSession empty_db
           (ex_session ''S1'' 2 [ex_message ''m1'' ''a'' 1000, ex_message ''m1'' ''b'' 2000]))
        10000 ''S1''
     = Some (ex_session ''S1'' 2 [ex_message ''m1'' ''b'' 2000])
   \<and> getSessionWithMessages
        (saveSession empty_db ((ex_session ''S1'' 2 [])\<lparr> s_messageCount := Some 0 \<rparr>)) 10000 ''S1''
     = Some (ex_session ''S1'' 2 [])"
  by (simp add: example_defs storage_defs)

subsection \<open>Summaries\<close>

lemma getAllSessions_set: "set (getAllSessions db) = set (SESSIONS_STORE db)"
  by (simp add: getAllSessions_def)

lemma getAllSessions_distinct:
  "distinct (map c_id (SESSIONS_STORE db)) \<Longrightarrow> distinct (map c_id (getAllSessions db))"
proof -
  have "mset (map c_id (getAllSessions db)) = mset (map c_id (SESSIONS_STORE db))"
    by (simp add: getAllSessions_def)
  then show "distinct (map c_id (SESSIONS_STORE db)) \<Longrightarrow> distinct (map c_id (getAllSessions db))"
    by (metis mset_eq_imp_distinct_iff)
qed

text \<open>
  C4, as amended. After \<open>saveSession s\<close>, \<open>getAllSessions\<close> holds one summary with the
  id of \<open>s\<close>; its \<open>messageCount\<close> is the number of messages of \<open>s\<close>, and its preview is
  absent when \<open>s\<close> has no message and otherwise the first 100 characters of the content
  of the last message of \<open>s\<close>. So the preview is absent or empty exactly when \<open>s\<close> has no
  message or its last message has empty content.
\<close>

theorem summary_after_save:
  "\<exists>c. filter (\<lambda>c. c_id c = s_id s) (getAllSessions (saveSession db s)) = [c]
      \<and> c_messageCount c = Some (length (s_messages s))
      \<and> c_preview c = (if s_messages s = [] then None
                       else Some (take 100 (m_content (last (s_messages s)))))
      \<and> ((c_preview c = None \<or> c_preview c = Some [])
           \<longleftrightarrow> (s_messages s = [] \<or> m_content (last (s_messages s)) = []))"
proof -
  have "filter (\<lambda>c. c_id c = s_id s) (SESSIONS_STORE (saveSession db s)) = [compress s]"
    by (simp add: saveSession_puts store_put_def compress_def)
  then have "filter (\<lambda>c. c_id c = s_id s) (getAllSessions (saveSession db s)) = [compress s]"
    by (simp add: getAllSessions_def filter_sort)
  then show ?thesis
    by (auto simp: compress_def preview_of_def)
qed

text \<open>Scenario A: two messages, the last one \<open>hello!\<close>.\<close>

theorem summary_after_save_witness:
  "\<exists>c. getAllSessions (saveSession empty_db scenarioA_session) = [c]
      \<and> c_messageCount c = Some 2 \<and> c_preview c = Some ''hello!''"
  using summary_after_save[of scenarioA_session empty_db]
  by (simp add: example_defs storage_defs)

text \<open>
  The claim C4 as it is written fails for the session the page saves while an answer
  streams in: its last message has empty content, so the preview is empty although the
  session has a message.
\<close>

theorem summary_after_save_counterexample:
  "map c_preview (getAllSessions (saveSession empty_db (ex_session ''S1'' 1 [ex_message ''m1'' [] 1000])))
     = [Some []]
   \<and> s_messages (ex_session ''S1'' 1 [ex_message ''m1'' [] 1000]) \<noteq> []"
  by (simp add: example_defs storage_defs)

subsection \<open>Migration\<close>

lemma filter_store_put:
  "filter (\<lambda>x. key x \<noteq> k) (store_put key q ys)
     = (if key q = k then filter (\<lambda>x. key x \<noteq> k) ys
        else store_put key q (filter (\<lambda>x. key x \<noteq> k) ys))"
  by (auto simp: store_put_def intro: filter_cong)

lemma filter_fold_store_put:
  "filter (\<lambda>x. key x \<noteq> k) (fold (store_put key) P ys)
     = fold (store_put key) (filter (\<lambda>x. key x \<noteq> k) P) (filter (\<lambda>x. key x \<noteq> k) ys)"
  by (induction P arbitrary: ys) (simp_all add: filter_store_put)

text \<open>A put makes an earlier put of the same record unobservable.\<close>

lemma store_put_fold_absorb:
  "store_put key r (fold (store_put key) P (store_put key r ys))
     = store_put key r (fold (store_put key) P ys)"
proof -
  have "filter (\<lambda>x. key x \<noteq> key r) (store_put key r ys) = filter (\<lambda>x. key x \<noteq> key r) ys"
    by (simp add: filter_store_put)
  then have "filter (\<lambda>x. key x \<noteq> key r) (fold (store_put key) P (store_put key r ys))
           = filter (\<lambda>x. key x \<noteq> key r) (fold (store_put key) P ys)"
    by (simp add: filter_fold_store_put)
  then show ?thesis by (simp add: store_put_def)
qed

lemma fold_store_put_twice:
  "fold (store_put key) P (fold (store_put key) P xs) = fold (store_put key) P xs"
proof (induction P arbitrary: xs rule: rev_induct)
  case Nil
  then show ?case by simp
next
  case (snoc r P)
  have "fold (store_put key) (P @ [r]) (fold (store_put key) (P @ [r]) xs)
      = store_put key r (fold (store_put key) P (store_put key r (fold (store_put key) P xs)))"
    by simp
  also have "\<dots> = store_put key r (fold (store_put key) P (fold (store_put key) P xs))"
    by (rule store_put_fold_absorb)
  also have "\<dots> = store_put key r (fold (store_put key) P xs)"
    by (simp add: snoc.IH)
  finally show ?case by simp
qed

lemma fold_saveSession:
  "fold (\<lambda>s d. saveSession d s) ss db =
     \<lparr> SESSIONS_STORE = fold (store_put c_id) (map compress ss) (SESSIONS_STORE db),
       MESSAGES_STORE = fold (store_put sm_id)
          (concat (map (\<lambda>s. map (messageWithSession (s_id s)) (s_messages s)) ss))
          (MESSAGES_STORE db) \<rparr>"
  by (induction ss arbitrary: db) (simp_all add: saveSession_puts)

lemma migrate_loop_fold:
  "migrate_loop db es = fold (\<lambda>s d. saveSession d s) (map the (takeWhile (\<lambda>e. e \<noteq> None) es)) db"
  by (induction db es rule: migrate_loop.induct) simp_all

lemma migrate_loop_twice: "migrate_loop (migrate_loop db es) es = migrate_loop db es"
  by (simp add: migrate_loop_fold fold_saveSession fold_store_put_twice)

lemma migrateFromLocalStorage_twice:
  "migrateFromLocalStorage (migrateFromLocalStorage db slot) slot = migrateFromLocalStorage db slot"
  by (simp add: migrateFromLocalStorage_def migrate_loop_twice split: option.splits StoredText.splits)

lemma migrateIfNeeded_slot: "w_localStorage (migrateIfNeeded w) = None"
  by (simp add: migrateIfNeeded_def split: option.splits)

lemma migrateIfNeeded_twice: "migrateIfNeeded (migrateIfNeeded w) = migrateIfNeeded w"
  using migrateIfNeeded_slot[of w] by (simp add: migrateIfNeeded_def[of "migrateIfNeeded w"])

text \<open>Only a commit that aborts leaves a call pending.\<close>

lemma try_saveSession_settles:
  "saveFault \<noteq> CommitAborts \<Longrightarrow> snd (try_saveSession saveFault db session) \<noteq> Pending"
  by (cases saveFault) (simp_all add: try_saveSession_def)

lemma summarise_settles:
  assumes "saveFault \<noteq> CommitAborts"
  shows "\<exists>db' s. summarise loadFault saveFault db now cs = (db', Some s)"
proof -
  have "try_saveSession saveFault db full \<noteq> (d, Pending)" for full d
    using try_saveSession_settles[OF assms, of db full] by auto
  then show ?thesis
    by (auto simp: summarise_def split: sum.splits option.splits prod.splits Outcome.splits)
qed

lemma summarise_all_settles:
  assumes "saveFault \<noteq> CommitAborts"
  shows "\<exists>db' out. summarise_all loadFault saveFault db now css = (db', Some out)"
proof (induction css arbitrary: db)
  case Nil
  then show ?case by simp
next
  case (Cons cs rest)
  from summarise_settles[OF assms] obtain db1 s where
    "summarise loadFault saveFault db now cs = (db1, Some s)" by blast
  moreover from Cons obtain db2 out where
    "summarise_all loadFault saveFault db1 now rest = (db2, Some out)" by blast
  ultimately show ?case by simp
qed

lemma loadSessionsFromIndexedDB_settles:
  assumes "saveFault \<noteq> CommitAborts"
  shows "\<exists>w'. loadSessionsFromIndexedDB False loadFault saveFault w now = Inr w'"
proof -
  from summarise_all_settles[OF assms] obtain db' out where
    "summarise_all loadFault saveFault (w_db w) now (getAllSessions (w_db w)) = (db', Some out)"
    by blast
  then show ?thesis by (simp add: loadSessionsFromIndexedDB_def)
qed

lemma loadSessionsFromIndexedDB_slot:
  "loadSessionsFromIndexedDB listFails loadFault saveFault w now = Inr w' \<Longrightarrow>
     w_localStorage w' = w_localStorage w"
  by (auto simp: loadSessionsFromIndexedDB_def split: if_splits prod.splits option.splits)

lemma loadSessionsFromIndexedDB_slot_unsettled:
  "loadSessionsFromIndexedDB listFails loadFault saveFault w now = Inl u \<Longrightarrow>
     w_localStorage (case u of Throws v \<Rightarrow> v | Hangs v \<Rightarrow> v) = w_localStorage w"
  by (auto simp: loadSessionsFromIndexedDB_def split: if_splits prod.splits option.splits)

lemma loadSessionsFromLocalStorage_slot:
  "w_localStorage (loadSessionsFromLocalStorage w) = w_localStorage w"
  by (simp add: loadSessionsFromLocalStorage_def split: option.splits StoredText.splits)

lemma initializeStorage_slot:
  "w_localStorage (initializeStorage True False listFails loadFault saveFault w now) = None"
proof -
  let ?w0 = "w\<lparr> w_state := (w_state w)\<lparr> st_isLoading := True, st_error := None \<rparr> \<rparr>"
  let ?w2 = "(migrateIfNeeded ?w0)
      \<lparr> w_state := (w_state (migrateIfNeeded ?w0))\<lparr> st_storageType := IndexedDB \<rparr> \<rparr>"
  show ?thesis
  proof (cases "loadSessionsFromIndexedDB listFails loadFault saveFault ?w2 now")
    case (Inl u)
    from loadSessionsFromIndexedDB_slot_unsettled[OF Inl] Inl show ?thesis
      by (cases u)
         (simp_all add: initializeStorage_def Let_def loadSessionsFromLocalStorage_slot
            migrateIfNeeded_slot)
  next
    case (Inr v)
    from loadSessionsFromIndexedDB_slot[OF Inr] Inr show ?thesis
      by (simp add: initializeStorage_def Let_def migrateIfNeeded_slot)
  qed
qed

lemma migrateData_slot:
  "migrateData listFails loadFault saveFault w now = Inr w' \<longrightarrow> w_localStorage w' = w_localStorage w"
  by (auto simp: migrateData_def refreshSessions_def split: if_splits
      dest: loadSessionsFromIndexedDB_slot)

text \<open>
  C7, as amended. Running \<open>migrateFromLocalStorage\<close> twice in a row on the same slot
  leaves the database as running it once does. The migration step of
  \<open>initializeStorage\<close>, which removes the key after \<open>migrateFromLocalStorage\<close> has
  returned, changes nothing when it runs a second time, and the slot is empty after
  either run, as it is when \<open>initializeStorage\<close> has opened IndexedDB and returns.
  \<open>migrateData\<close>, which runs \<open>migrateFromLocalStorage\<close> on its own, leaves the slot
  as it was.
\<close>

theorem migration_idempotent:
  "migrateFromLocalStorage (migrateFromLocalStorage db slot) slot = migrateFromLocalStorage db slot
   \<and> migrateIfNeeded (migrateIfNeeded w) = migrateIfNeeded w
   \<and> w_localStorage (migrateIfNeeded w) = None
   \<and> w_localStorage (migrateIfNeeded (migrateIfNeeded w)) = None
   \<and> w_localStorage (initializeStorage True False listFails loadFault saveFault w now) = None
   \<and> (\<forall>w'. migrateData listFails loadFault saveFault w now = Inr w' \<longrightarrow>
          w_localStorage w' = w_localStorage w)"
  by (simp add: migrateFromLocalStorage_twice migrateIfNeeded_twice migrateIfNeeded_slot
      initializeStorage_slot migrateData_slot)

theorem migration_idempotent_witness:
  "w_db (migrateIfNeeded (migrateIfNeeded
      (ex_world NoStorage [] empty_db (Some (SessionsJSON [Some scenarioA_session, None])))))
     = saveSession empty_db scenarioA_session
   \<and> w_localStorage (migrateIfNeeded
      (ex_world NoStorage [] empty_db (Some (SessionsJSON [Some scenarioA_session, None])))) = None
   \<and> (\<exists>w'. migrateData False NoFault NoFault
          (ex_world IndexedDB [] empty_db (Some (SessionsJSON [Some scenarioA_session]))) 5000 = Inr w'
        \<and> w_localStorage w' = Some (SessionsJSON [Some scenarioA_session]))"
proof -
  let ?w = "ex_world NoStorage [] empty_db (Some (SessionsJSON [Some scenarioA_session, None]))"
  let ?v = "ex_world IndexedDB [] empty_db (Some (SessionsJSON [Some scenarioA_session]))"
  have "w_db (migrateIfNeeded ?w) = saveSession empty_db scenarioA_session"
    by (simp add: migrateIfNeeded_def migrateFromLocalStorage_def ex_world_def)
  moreover obtain w' where r: "migrateData False NoFault NoFault ?v 5000 = Inr w'"
    using loadSessionsFromIndexedDB_settles[of NoFault NoFault
        "?v\<lparr> w_db := migrateFromLocalStorage (w_db ?v) (w_localStorage ?v) \<rparr>" 5000]
    by (auto simp: migrateData_def refreshSessions_def ex_world_def)
  moreover have "w_localStorage ?v = Some (SessionsJSON [Some scenarioA_session])"
    by (simp add: ex_world_def)
  ultimately show ?thesis
    using migration_idempotent[of empty_db "Some (SessionsJSON [Some scenarioA_session, None])" ?w
        False NoFault NoFault 5000]
      migration_idempotent[of empty_db None ?v False NoFault NoFault 5000]
    by auto
qed

text \<open>
  The claim C7 as it is written fails for \<open>migrateFromLocalStorage\<close> on its own, as
  \<open>migrateData\<close> runs it: the slot still holds the sessions afterwards.
\<close>

theorem migration_idempotent_counterexample:
  "map_sum id w_localStorage
     (migrateData False NoFault NoFault
        (ex_world IndexedDB [] empty_db (Some (SessionsJSON [Some scenarioA_session]))) 5000)
     = Inr (Some (SessionsJSON [Some scenarioA_session]))"
proof -
  let ?v = "ex_world IndexedDB [] empty_db (Some (SessionsJSON [Some scenarioA_session]))"
  obtain w' where r: "migrateData False NoFault NoFault ?v 5000 = Inr w'"
    using loadSessionsFromIndexedDB_settles[of NoFault NoFault
        "?v\<lparr> w_db := migrateFromLocalStorage (w_db ?v) (w_localStorage ?v) \<rparr>" 5000]
    by (auto simp: migrateData_def refreshSessions_def ex_world_def)
  from migrateData_slot[of False NoFault NoFault ?v 5000 w'] r
  have "w_localStorage w' = w_localStorage ?v" by simp
  with r show ?thesis by (simp add: ex_world_def)
qed

subsection \<open>Repair on read\<close>

lemma store_put_present:
  assumes "distinct (map key xs)" and "r \<in> set xs"
  shows "mset (store_put key r xs) = mset xs"
proof -
  have inj: "inj_on key (set xs)" and d: "distinct xs"
    using assms(1) by (simp_all add: distinct_map)
  have "filter (\<lambda>x. key x \<noteq> key r) xs = filter (\<lambda>x. x \<noteq> r) xs"
    using inj assms(2) by (intro filter_cong) (auto dest: inj_onD)
  moreover have "mset (filter (\<lambda>x. x \<noteq> r) xs) = mset xs - {#r#}"
    using d by (induction xs) auto
  ultimately show ?thesis
    using assms(2) by (simp add: store_put_def)
qed

lemma fold_store_put_present:
  assumes "distinct (map key xs)" and "set rs \<subseteq> set xs"
  shows "mset (fold (store_put key) rs xs) = mset xs"
  using assms
proof (induction rs arbitrary: xs)
  case Nil
  then show ?case by simp
next
  case (Cons r rs)
  have m: "mset (store_put key r xs) = mset xs"
    using Cons.prems by (intro store_put_present) auto
  then have "set (store_put key r xs) = set xs" by (rule mset_eq_setD)
  with Cons.prems have "set rs \<subseteq> set (store_put key r xs)" by simp
  from Cons.IH[OF store_put_distinct[OF Cons.prems(1)] this] m show ?case by simp
qed

text \<open>Sorting by a key that tells the elements apart depends on the elements only.\<close>

lemma sort_key_mset_cong:
  assumes "mset xs = mset ys" and "inj_on f (set xs)" and "distinct xs"
  shows "sort_key f xs = sort_key f ys"
proof (rule sym, rule properties_for_sort_key)
  show "mset (sort_key f xs) = mset ys" using assms(1) by simp
  show "sorted (map f (sort_key f xs))" by simp
  fix k assume "k \<in> set (sort_key f xs)"
  then have k: "k \<in> set xs" by simp
  have dy: "distinct ys" using assms(1,3) by (metis mset_eq_imp_distinct_iff)
  have sy: "set ys = set xs" using assms(1) by (metis mset_eq_setD)
  have a: "filter (\<lambda>x. f k = f x) xs = filter (\<lambda>x. x = k) xs"
    using assms(2) k by (intro filter_cong) (auto dest: inj_onD)
  have b: "filter (\<lambda>x. f k = f x) ys = filter (\<lambda>x. x = k) ys"
    using assms(2) k sy by (intro filter_cong) (auto dest: inj_onD)
  have c: "filter (\<lambda>x. x = k) zs = [k]" if "distinct zs" "k \<in> set zs" for zs
    using that by (induction zs) (auto simp: filter_empty_conv)
  show "filter (\<lambda>x. f k = f x) (sort_key f xs) = filter (\<lambda>x. f k = f x) ys"
    unfolding filter_sort a b using c[OF assms(3) k] c[OF dy] k sy by simp
qed

lemma fullSessionMessages_mset_cong:
  assumes "mset store = mset store'" and "distinct (map sm_id store)"
  shows "fullSessionMessages store now sid = fullSessionMessages store' now sid"
proof -
  let ?P = "\<lambda>r. sm_sessionId r = sid \<and> 0 \<le> sm_timestamp r \<and> sm_timestamp r \<le> now"
  have "distinct (map sm_id (filter ?P store))"
    using assms(2) by (rule distinct_map_filter)
  then have "inj_on sm_id (set (filter ?P store))" and d: "distinct (filter ?P store)"
    by (simp_all add: distinct_map)
  then have "inj_on (\<lambda>r. (sm_timestamp r, sm_id r)) (set (filter ?P store))"
    by (auto simp: inj_on_def)
  moreover have "mset (filter ?P store) = mset (filter ?P store')"
    using assms(1) by simp
  ultimately have "sort_key (\<lambda>r. (sm_timestamp r, sm_id r)) (filter ?P store)
      = sort_key (\<lambda>r. (sm_timestamp r, sm_id r)) (filter ?P store')"
    using d by (intro sort_key_mset_cong)
  then show ?thesis
    by (simp add: fullSessionMessages_def sessionTimestamp_getAll_def)
qed

text \<open>Saving a session as it was loaded puts back records the store already holds.\<close>

lemma resave_messages:
  assumes "distinct (map sm_id store)"
  shows "mset (fold (store_put sm_id)
                (map (messageWithSession sid) (fullSessionMessages store now sid)) store) = mset store"
proof -
  have "messageWithSession sid ` set (fullSessionMessages store now sid) \<subseteq> set store"
    by (auto simp: fullSessionMessages_set messageWithSession_stored)
  with assms show ?thesis
    by (intro fold_store_put_present) auto
qed

lemma summarise_repair:
  assumes "needsRepair cs" and "store_get c_id (SESSIONS_STORE db) (c_id cs) = Some cs"
  shows "\<exists>full. getSessionWithMessages db now (c_id cs) = Some full
           \<and> s_id full = c_id cs
           \<and> s_messages full = fullSessionMessages (MESSAGES_STORE db) now (c_id cs)
           \<and> summarise NoFault NoFault db now cs
               = (saveSession db full,
                  Some (summaryOf cs (Some (length (s_messages full)))
                    (Some (case preview_of (s_messages full) of None \<Rightarrow> [] | Some p \<Rightarrow> p))))"
  using assms
  by (simp add: summarise_def try_getSessionWithMessages_def try_saveSession_def
      getSessionWithMessages_def)

lemma summarise_all_repairs:
  assumes "distinct (map sm_id (MESSAGES_STORE db))"
    and "mset (MESSAGES_STORE db) = mset M0"
    and "distinct (map c_id css)"
    and "\<forall>c \<in> set css. store_get c_id (SESSIONS_STORE db) (c_id c) = Some c"
  shows "\<exists>db' out. summarise_all NoFault NoFault db now css = (db', Some out)
     \<and> mset (MESSAGES_STORE db') = mset M0
     \<and> (\<forall>k. k \<notin> c_id ` set css \<longrightarrow>
            store_get c_id (SESSIONS_STORE db') k = store_get c_id (SESSIONS_STORE db) k)
     \<and> (\<forall>c \<in> set css. needsRepair c \<longrightarrow>
           (\<exists>summary \<in> set out. s_id summary = c_id c
              \<and> s_messageCount summary = Some (length (fullSessionMessages M0 now (c_id c)))
              \<and> s_lastMessagePreview summary
                  = Some (case preview_of (fullSessionMessages M0 now (c_id c)) of
                            None \<Rightarrow> [] | Some p \<Rightarrow> p))
         \<and> (\<exists>stored. store_get c_id (SESSIONS_STORE db') (c_id c) = Some stored
              \<and> c_messageCount stored = Some (length (fullSessionMessages M0 now (c_id c)))
              \<and> c_preview stored = preview_of (fullSessionMessages M0 now (c_id c))))"
  using assms
proof (induction css arbitrary: db)
  case Nil
  then show ?case by simp
next
  case (Cons cs rest)
  let ?returned = "\<lambda>summary c. s_id summary = c_id c
      \<and> s_messageCount summary = Some (length (fullSessionMessages M0 now (c_id c)))
      \<and> s_lastMessagePreview summary
          = Some (case preview_of (fullSessionMessages M0 now (c_id c)) of None \<Rightarrow> [] | Some p \<Rightarrow> p)"
  let ?persisted = "\<lambda>d c. \<exists>stored. store_get c_id (SESSIONS_STORE d) (c_id c) = Some stored
      \<and> c_messageCount stored = Some (length (fullSessionMessages M0 now (c_id c)))
      \<and> c_preview stored = preview_of (fullSessionMessages M0 now (c_id c))"
  have dm: "distinct (map sm_id (MESSAGES_STORE db))" and m0: "mset (MESSAGES_STORE db) = mset M0"
    and get_cs: "store_get c_id (SESSIONS_STORE db) (c_id cs) = Some cs"
    and get_rest: "\<forall>c \<in> set rest. store_get c_id (SESSIONS_STORE db) (c_id c) = Some c"
    and fresh: "c_id cs \<notin> c_id ` set rest" and dr: "distinct (map c_id rest)"
    using Cons.prems by auto
  have msgs: "fullSessionMessages (MESSAGES_STORE db) now k = fullSessionMessages M0 now k" for k
    using m0 dm by (rule fullSessionMessages_mset_cong)
  obtain db1 s where step: "summarise NoFault NoFault db now cs = (db1, Some s)"
  proof (cases "needsRepair cs")
    case True
    from summarise_repair[OF True get_cs, of now] that show ?thesis by blast
  next
    case False
    with that show ?thesis by (simp add: summarise_def)
  qed
  \<comment> \<open>what the step leaves in place\<close>
  have keep: "mset (MESSAGES_STORE db1) = mset (MESSAGES_STORE db)
      \<and> (\<forall>k. k \<noteq> c_id cs \<longrightarrow>
            store_get c_id (SESSIONS_STORE db1) k = store_get c_id (SESSIONS_STORE db) k)"
  proof (cases "needsRepair cs")
    case True
    from summarise_repair[OF True get_cs, of now] step obtain full where
      f: "s_id full = c_id cs" "s_messages full = fullSessionMessages (MESSAGES_STORE db) now (c_id cs)"
         "db1 = saveSession db full" by auto
    have "mset (MESSAGES_STORE db1) = mset (MESSAGES_STORE db)"
      unfolding f(3) saveSession_puts using resave_messages[OF dm, of "c_id cs" now] by (simp add: f)
    moreover have "store_get c_id (SESSIONS_STORE db1) k = store_get c_id (SESSIONS_STORE db) k"
      if "k \<noteq> c_id cs" for k
      using that by (simp add: f(3) saveSession_puts store_get_store_put compress_def f(1))
    ultimately show ?thesis by blast
  next
    case False
    with step have "db1 = db" by (simp add: summarise_def)
    then show ?thesis by simp
  qed
  \<comment> \<open>what the step does for a summary in need of repair\<close>
  have here: "?returned s cs \<and> ?persisted db1 cs" if "needsRepair cs"
  proof -
    from summarise_repair[OF that get_cs, of now] step obtain full where
      f: "s_id full = c_id cs" "s_messages full = fullSessionMessages M0 now (c_id cs)"
         "db1 = saveSession db full"
         "s = summaryOf cs (Some (length (s_messages full)))
                (Some (case preview_of (s_messages full) of None \<Rightarrow> [] | Some p \<Rightarrow> p))"
      by (auto simp: msgs)
    have "store_get c_id (SESSIONS_STORE db1) (c_id cs) = Some (compress full)"
      by (simp add: f(3) saveSession_puts store_get_store_put compress_def f(1))
    moreover have "c_messageCount (compress full) = Some (length (fullSessionMessages M0 now (c_id cs)))"
      "c_preview (compress full) = preview_of (fullSessionMessages M0 now (c_id cs))"
      by (simp_all add: compress_def f(2))
    ultimately show ?thesis by (simp add: f(4) f(2) summaryOf_def)
  qed
  have dm1: "distinct (map sm_id (MESSAGES_STORE db1))"
    using keep dm by (metis mset_eq_imp_distinct_iff mset_map)
  have m1: "mset (MESSAGES_STORE db1) = mset M0" using keep m0 by simp
  have get1: "\<forall>c \<in> set rest. store_get c_id (SESSIONS_STORE db1) (c_id c) = Some c"
    using keep get_rest fresh by (metis imageI)
  from Cons.IH[OF dm1 m1 dr get1] obtain db' out where
    ih: "summarise_all NoFault NoFault db1 now rest = (db', Some out)"
      "mset (MESSAGES_STORE db') = mset M0"
      "\<forall>k. k \<notin> c_id ` set rest \<longrightarrow>
            store_get c_id (SESSIONS_STORE db') k = store_get c_id (SESSIONS_STORE db1) k"
      "\<forall>c \<in> set rest. needsRepair c \<longrightarrow> (\<exists>summary \<in> set out. ?returned summary c) \<and> ?persisted db' c"
    by blast
  have all: "summarise_all NoFault NoFault db now (cs # rest) = (db', Some (s # out))"
    by (simp add: step ih(1))
  have outside: "\<forall>k. k \<notin> c_id ` set (cs # rest) \<longrightarrow>
      store_get c_id (SESSIONS_STORE db') k = store_get c_id (SESSIONS_STORE db) k"
    using ih(3) keep by simp
  have final_cs: "store_get c_id (SESSIONS_STORE db') (c_id cs) = store_get c_id (SESSIONS_STORE db1) (c_id cs)"
    using ih(3) fresh by simp
  have "(\<exists>summary \<in> set (s # out). ?returned summary c) \<and> ?persisted db' c"
    if c: "c \<in> set (cs # rest)" and n: "needsRepair c" for c
  proof (cases "c = cs")
    case True
    with here n have "?returned s cs \<and> ?persisted db1 cs" by simp
    then show ?thesis unfolding True final_cs by simp
  next
    case False
    with c have "c \<in> set rest" by simp
    with ih(4) n show ?thesis by fastforce
  qed
  with all ih(2) outside show ?case by blast
qed


text \<open>
  C5, as amended. Let the database hold one record for each key, and let a stored
  summary need repair: its \<open>messageCount\<close> is not a number, or its preview is absent
  or empty, whether or not the session has messages. When no storage call fails,
  \<open>loadSessionsFromIndexedDB\<close> returns for it a summary computed from the messages
  \<open>getSessionWithMessages\<close> loads, which are the stored messages of the session dated
  between the epoch and the time of the load, in ascending order of timestamp: the
  count is their number and the preview the first 100 characters of the last of them
  (empty when there is none). \<open>saveSession\<close> has written the same two values to the
  record of the session, and the stored messages are as they were. When every stored
  message of the session is dated in that range, the count is the number of stored
  messages of the session.

  When \<open>getSessionWithMessages\<close> rejects, or \<open>saveSession\<close> rejects after a request
  error, the summary is returned with the count 0 and the empty preview and the
  database is left as it was; when \<open>getSessionWithMessages\<close> returns \<^verbatim>\<open>null\<close>, it is
  returned as it is stored. \<open>getAllSessions\<close> returns the stored summaries as they are,
  and the localStorage path returns the stored sessions as they are and writes nothing.
\<close>

theorem repair_on_read:
  assumes "wf_db (w_db w)" and "cs \<in> set (SESSIONS_STORE (w_db w))" and "needsRepair cs"
  shows "(\<exists>w' summary stored.
           loadSessionsFromIndexedDB False NoFault NoFault w now = Inr w'
         \<and> summary \<in> set (st_sessions (w_state w')) \<and> s_id summary = c_id cs
         \<and> s_messageCount summary
             = Some (length (filter (\<lambda>r. sm_sessionId r = c_id cs \<and> 0 \<le> sm_timestamp r
                       \<and> sm_timestamp r \<le> now) (MESSAGES_STORE (w_db w))))
         \<and> s_lastMessagePreview summary
             = Some (if fullSessionMessages (MESSAGES_STORE (w_db w)) now (c_id cs) = [] then []
                     else take 100 (m_content
                            (last (fullSessionMessages (MESSAGES_STORE (w_db w)) now (c_id cs)))))
         \<and> store_get c_id (SESSIONS_STORE (w_db w')) (c_id cs) = Some stored
         \<and> c_messageCount stored = s_messageCount summary
         \<and> c_preview stored
             = (if fullSessionMessages (MESSAGES_STORE (w_db w)) now (c_id cs) = [] then None
                else Some (take 100 (m_content
                            (last (fullSessionMessages (MESSAGES_STORE (w_db w)) now (c_id cs))))))
         \<and> mset (MESSAGES_STORE (w_db w')) = mset (MESSAGES_STORE (w_db w)))
       \<and> mset (fullSessionMessages (MESSAGES_STORE (w_db w)) now (c_id cs))
           = mset (map sm_message (filter (\<lambda>r. sm_sessionId r = c_id cs \<and> 0 \<le> sm_timestamp r
                       \<and> sm_timestamp r \<le> now) (MESSAGES_STORE (w_db w))))
       \<and> sorted (map m_timestamp (fullSessionMessages (MESSAGES_STORE (w_db w)) now (c_id cs)))
       \<and> ((\<forall>r \<in> set (MESSAGES_STORE (w_db w)).
              sm_sessionId r = c_id cs \<longrightarrow> 0 \<le> sm_timestamp r \<and> sm_timestamp r \<le> now)
            \<longrightarrow> filter (\<lambda>r. sm_sessionId r = c_id cs \<and> 0 \<le> sm_timestamp r
                       \<and> sm_timestamp r \<le> now) (MESSAGES_STORE (w_db w))
                = filter (\<lambda>r. sm_sessionId r = c_id cs) (MESSAGES_STORE (w_db w)))
       \<and> summarise OpenFails saveFault (w_db w) now cs
           = (w_db w, Some (summaryOf cs (Some 0) (Some [])))
       \<and> summarise NoFault RequestFails (w_db w) now cs
           = (w_db w, Some (summaryOf cs (Some 0) (Some [])))
       \<and> summarise RequestFails saveFault (w_db w) now cs
           = (w_db w, Some (summaryOf cs (c_messageCount cs) (c_preview cs)))
       \<and> cs \<in> set (getAllSessions (w_db w))
       \<and> (w_localStorage v = Some (SessionsJSON (map Some sessions))
            \<longrightarrow> loadSessionsFromLocalStorage v
                  = v\<lparr> w_state := (w_state v)\<lparr> st_sessions := sessions \<rparr> \<rparr>)"
proof -
  let ?db = "w_db w"
  let ?P = "\<lambda>r. sm_sessionId r = c_id cs \<and> 0 \<le> sm_timestamp r \<and> sm_timestamp r \<le> now"
  let ?msgs = "fullSessionMessages (MESSAGES_STORE ?db) now (c_id cs)"
  have d: "distinct (map c_id (SESSIONS_STORE ?db))" "distinct (map sm_id (MESSAGES_STORE ?db))"
    using assms(1) by (simp_all add: wf_db_def)
  have get: "\<forall>c \<in> set (getAllSessions ?db). store_get c_id (SESSIONS_STORE ?db) (c_id c) = Some c"
    using d(1) by (simp add: getAllSessions_set store_get_member)
  from summarise_all_repairs[OF d(2) refl getAllSessions_distinct[OF d(1)] get, of now]
  obtain db' out where
    r: "summarise_all NoFault NoFault ?db now (getAllSessions ?db) = (db', Some out)"
      "mset (MESSAGES_STORE db') = mset (MESSAGES_STORE ?db)"
      "\<forall>c \<in> set (getAllSessions ?db). needsRepair c \<longrightarrow>
         (\<exists>summary \<in> set out. s_id summary = c_id c
            \<and> s_messageCount summary = Some (length (fullSessionMessages (MESSAGES_STORE ?db) now (c_id c)))
            \<and> s_lastMessagePreview summary
                = Some (case preview_of (fullSessionMessages (MESSAGES_STORE ?db) now (c_id c)) of
                          None \<Rightarrow> [] | Some p \<Rightarrow> p))
       \<and> (\<exists>stored. store_get c_id (SESSIONS_STORE db') (c_id c) = Some stored
            \<and> c_messageCount stored = Some (length (fullSessionMessages (MESSAGES_STORE ?db) now (c_id c)))
            \<and> c_preview stored = preview_of (fullSessionMessages (MESSAGES_STORE ?db) now (c_id c)))"
    by blast
  define w' where "w' = w\<lparr> w_db := db', w_state := (w_state w)\<lparr> st_sessions := out \<rparr> \<rparr>"
  have l: "loadSessionsFromIndexedDB False NoFault NoFault w now = Inr w'"
    by (simp add: loadSessionsFromIndexedDB_def r(1) w'_def)
  have len: "length ?msgs = length (filter ?P (MESSAGES_STORE ?db))"
    by (simp add: fullSessionMessages_def sessionTimestamp_getAll_def)
  have ms: "mset ?msgs = mset (map sm_message (filter ?P (MESSAGES_STORE ?db)))"
    by (simp add: fullSessionMessages_def sessionTimestamp_getAll_def)
  have so: "sorted (map m_timestamp ?msgs)"
    unfolding fullSessionMessages_def by (rule sorted_sort_key)
  have g: "store_get c_id (SESSIONS_STORE ?db) (c_id cs) = Some cs"
    using d(1) assms(2) by (rule store_get_member)
  from r(3) assms(2,3) obtain summary stored where
    s: "summary \<in> set out" "s_id summary = c_id cs"
       "s_messageCount summary = Some (length ?msgs)"
       "s_lastMessagePreview summary = Some (case preview_of ?msgs of None \<Rightarrow> [] | Some p \<Rightarrow> p)"
       "store_get c_id (SESSIONS_STORE db') (c_id cs) = Some stored"
       "c_messageCount stored = Some (length ?msgs)"
       "c_preview stored = preview_of ?msgs"
    unfolding getAllSessions_set by blast
  have w': "summary \<in> set (st_sessions (w_state w'))" "SESSIONS_STORE (w_db w') = SESSIONS_STORE db'"
    "MESSAGES_STORE (w_db w') = MESSAGES_STORE db'"
    using s(1) by (simp_all add: w'_def)
  have first: "\<exists>w' summary stored.
           loadSessionsFromIndexedDB False NoFault NoFault w now = Inr w'
         \<and> summary \<in> set (st_sessions (w_state w')) \<and> s_id summary = c_id cs
         \<and> s_messageCount summary = Some (length (filter ?P (MESSAGES_STORE ?db)))
         \<and> s_lastMessagePreview summary
             = Some (if ?msgs = [] then [] else take 100 (m_content (last ?msgs)))
         \<and> store_get c_id (SESSIONS_STORE (w_db w')) (c_id cs) = Some stored
         \<and> c_messageCount stored = s_messageCount summary
         \<and> c_preview stored
             = (if ?msgs = [] then None else Some (take 100 (m_content (last ?msgs))))
         \<and> mset (MESSAGES_STORE (w_db w')) = mset (MESSAGES_STORE ?db)"
    using l w' s r(2) len
    by (intro exI[of _ w'] exI[of _ summary] exI[of _ stored]) (simp add: preview_of_def)
  have range: "filter ?P (MESSAGES_STORE ?db) = filter (\<lambda>r. sm_sessionId r = c_id cs) (MESSAGES_STORE ?db)"
    if "\<forall>r \<in> set (MESSAGES_STORE ?db). sm_sessionId r = c_id cs \<longrightarrow> 0 \<le> sm_timestamp r \<and> sm_timestamp r \<le> now"
    using that by (intro filter_cong) auto
  have full: "getSessionWithMessages ?db now (c_id cs) \<noteq> None"
    by (simp add: getSessionWithMessages_def g)
  have f1: "summarise OpenFails saveFault ?db now cs = (?db, Some (summaryOf cs (Some 0) (Some [])))"
    using assms(3) by (simp add: summarise_def try_getSessionWithMessages_def)
  have f2: "summarise NoFault RequestFails ?db now cs = (?db, Some (summaryOf cs (Some 0) (Some [])))"
    using assms(3) full
    by (auto simp: summarise_def try_getSessionWithMessages_def try_saveSession_def)
  have f3: "summarise RequestFails saveFault ?db now cs
      = (?db, Some (summaryOf cs (c_messageCount cs) (c_preview cs)))"
    using assms(3) by (simp add: summarise_def try_getSessionWithMessages_def)
  have ga: "cs \<in> set (getAllSessions ?db)" using assms(2) by (simp add: getAllSessions_set)
  have ls: "loadSessionsFromLocalStorage v = v\<lparr> w_state := (w_state v)\<lparr> st_sessions := sessions \<rparr> \<rparr>"
    if "w_localStorage v = Some (SessionsJSON (map Some sessions))"
    using that by (simp add: loadSessionsFromLocalStorage_def list_all_iff comp_def)
  show ?thesis
    apply (intro conjI impI)
    subgoal by (rule first)
    subgoal by (rule ms)
    subgoal by (rule so)
    subgoal by (rule range)
    subgoal by (rule f1)
    subgoal by (rule f2)
    subgoal by (rule f3)
    subgoal by (rule ga)
    subgoal by (rule ls)
    done
qed

text \<open>
  The stored summary of scenario A has lost its count and its preview; the load at
  5000, later than both messages, returns 2 and \<open>hello!\<close> and writes them back.
\<close>

theorem repair_on_read_witness:
  "wf_db stale_db
   \<and> needsRepair ((compress scenarioA_session)\<lparr> c_messageCount := None, c_preview := None \<rparr>)
   \<and> length (filter (\<lambda>r. sm_sessionId r = ''S1'') (MESSAGES_STORE stale_db)) = 2
   \<and> (\<exists>w' summary stored.
         loadSessionsFromIndexedDB False NoFault NoFault (ex_world IndexedDB [] stale_db None) 5000 = Inr w'
       \<and> summary \<in> set (st_sessions (w_state w'))
       \<and> s_messageCount summary = Some 2 \<and> s_lastMessagePreview summary = Some ''hello!''
       \<and> store_get c_id (SESSIONS_STORE (w_db w')) ''S1'' = Some stored
       \<and> c_messageCount stored = Some 2 \<and> c_preview stored = Some ''hello!'')
   \<and> filter (\<lambda>r. sm_sessionId r = ''S1'' \<and> 0 \<le> sm_timestamp r \<and> sm_timestamp r \<le> 5000)
        (MESSAGES_STORE stale_db)
       = filter (\<lambda>r. sm_sessionId r = ''S1'') (MESSAGES_STORE stale_db)
   \<and> st_sessions (w_state (loadSessionsFromLocalStorage
        (ex_world LocalStorage [] empty_db (Some (SessionsJSON [Some scenarioA_session])))))
       = [scenarioA_session]"
proof -
  let ?cs = "(compress scenarioA_session)\<lparr> c_messageCount := None, c_preview := None \<rparr>"
  let ?w = "ex_world IndexedDB [] stale_db None"
  let ?v = "ex_world LocalStorage [] empty_db (Some (SessionsJSON [Some scenarioA_session]))"
  have db: "w_db ?w = stale_db" by (simp add: ex_world_def)
  have wf: "wf_db (w_db ?w)"
    unfolding db by (simp add: wf_db_def example_defs storage_defs)
  have mem: "?cs \<in> set (SESSIONS_STORE (w_db ?w))"
    unfolding db by (simp add: stale_db_def)
  have n: "needsRepair ?cs" by (simp add: needsRepair_def)
  have i: "c_id ?cs = ''S1''" by (simp add: compress_def example_defs)
  have full: "fullSessionMessages (MESSAGES_STORE stale_db) 5000 ''S1'' = s_messages scenarioA_session"
    by (simp add: example_defs storage_defs)
  have cnt: "length (filter (\<lambda>r. sm_sessionId r = ''S1'' \<and> 0 \<le> sm_timestamp r \<and> sm_timestamp r \<le> 5000)
        (MESSAGES_STORE stale_db)) = 2"
    "length (filter (\<lambda>r. sm_sessionId r = ''S1'') (MESSAGES_STORE stale_db)) = 2"
    by (simp_all add: example_defs storage_defs)
  have msgs: "s_messages scenarioA_session \<noteq> []"
    "take 100 (m_content (last (s_messages scenarioA_session))) = ''hello!''"
    by (simp_all add: example_defs)
  have dated: "\<forall>r \<in> set (MESSAGES_STORE stale_db).
      sm_sessionId r = ''S1'' \<longrightarrow> 0 \<le> sm_timestamp r \<and> sm_timestamp r \<le> 5000"
    by (simp add: example_defs storage_defs)
  have slot: "w_localStorage ?v = Some (SessionsJSON (map Some [scenarioA_session]))"
    by (simp add: ex_world_def)
  note t = repair_on_read[OF wf mem n, where now = 5000 and v = ?v
      and sessions = "[scenarioA_session]"]
  from t[THEN conjunct1]
  obtain w' summary stored where
    "loadSessionsFromIndexedDB False NoFault NoFault ?w 5000 = Inr w'"
    "summary \<in> set (st_sessions (w_state w'))"
    "s_messageCount summary = Some 2" "s_lastMessagePreview summary = Some ''hello!''"
    "store_get c_id (SESSIONS_STORE (w_db w')) ''S1'' = Some stored"
    "c_messageCount stored = Some 2" "c_preview stored = Some ''hello!''"
    unfolding i db full cnt by (auto simp: msgs)
  then have first: "\<exists>w' summary stored.
         loadSessionsFromIndexedDB False NoFault NoFault ?w 5000 = Inr w'
       \<and> summary \<in> set (st_sessions (w_state w'))
       \<and> s_messageCount summary = Some 2 \<and> s_lastMessagePreview summary = Some ''hello!''
       \<and> store_get c_id (SESSIONS_STORE (w_db w')) ''S1'' = Some stored
       \<and> c_messageCount stored = Some 2 \<and> c_preview stored = Some ''hello!''"
    by blast
  have range: "filter (\<lambda>r. sm_sessionId r = ''S1'' \<and> 0 \<le> sm_timestamp r \<and> sm_timestamp r \<le> 5000)
        (MESSAGES_STORE stale_db)
       = filter (\<lambda>r. sm_sessionId r = ''S1'') (MESSAGES_STORE stale_db)"
    using t[THEN conjunct2, THEN conjunct2, THEN conjunct2, THEN conjunct1] dated
    unfolding i db by (rule mp)
  have "loadSessionsFromLocalStorage ?v
      = ?v\<lparr> w_state := (w_state ?v)\<lparr> st_sessions := [scenarioA_session] \<rparr> \<rparr>"
    using t[THEN conjunct2, THEN conjunct2, THEN conjunct2, THEN conjunct2, THEN conjunct2,
        THEN conjunct2, THEN conjunct2, THEN conjunct2] slot
    by (rule mp)
  then have ls: "st_sessions (w_state (loadSessionsFromLocalStorage ?v)) = [scenarioA_session]"
    by simp
  from wf n cnt(2) first range ls show ?thesis unfolding db by (intro conjI)
qed

text \<open>
  The claim C5 as it is written fails on each read path. The one message of the
  session of \<open>future_db\<close> is dated after the load and its content is empty, so the
  stored preview is empty while the session has a message: the load returns and
  writes back the count 0 over a store that holds 1 message. When \<open>saveSession\<close>
  fails the summary of scenario A comes back with the count 0 and nothing is written.
  \<open>getAllSessions\<close> returns the summary without a count as it is, and the
  localStorage path returns a session without a count as it is.
\<close>

theorem repair_on_read_counterexample:
  "length (filter (\<lambda>r. sm_sessionId r = ''S1'') (MESSAGES_STORE future_db)) = 1
   \<and> map c_preview (getAllSessions future_db) = [Some []]
   \<and> map_sum id (map s_messageCount \<circ> st_sessions \<circ> w_state)
       (loadSessionsFromIndexedDB False NoFault NoFault (ex_world IndexedDB [] future_db None) 5000)
     = Inr [Some 0]
   \<and> map_sum id (map c_messageCount \<circ> SESSIONS_STORE \<circ> w_db)
       (loadSessionsFromIndexedDB False NoFault NoFault (ex_world IndexedDB [] future_db None) 5000)
     = Inr [Some 0]
   \<and> map_sum id (map s_messageCount \<circ> st_sessions \<circ> w_state)
       (loadSessionsFromIndexedDB False NoFault RequestFails (ex_world IndexedDB [] stale_db None) 5000)
     = Inr [Some 0]
   \<and> map_sum id w_db
       (loadSessionsFromIndexedDB False NoFault RequestFails (ex_world IndexedDB [] stale_db None) 5000)
     = Inr stale_db
   \<and> map c_messageCount (getAllSessions stale_db) = [None]
   \<and> map s_messageCount (st_sessions (w_state (loadSessionsFromLocalStorage
        (ex_world LocalStorage [] empty_db (Some (SessionsJSON [Some scenarioA_session]))))))
     = [None]
   \<and> w_localStorage (loadSessionsFromLocalStorage
        (ex_world LocalStorage [] empty_db (Some (SessionsJSON [Some scenarioA_session]))))
     = Some (SessionsJSON [Some scenarioA_session])"
  by (simp add: loadSessionsFromIndexedDB_def loadSessionsFromLocalStorage_def summarise_def
      needsRepair_def summaryOf_def try_getSessionWithMessages_def try_saveSession_def
      future_db_def example_defs storage_defs)

subsection \<open>Failures of the primary store\<close>

lemma hook_saveSession_storageType:
  "st_storageType (w_state w) = IndexedDB \<Longrightarrow>
     st_storageType (w_state (fst (hook_saveSession fault setItem w session))) = IndexedDB
     \<and> w_db (fst (hook_saveSession fault setItem w session)) = fst (try_saveSession fault (w_db w) session)"
  by (cases "try_saveSession fault (w_db w) session";
      cases "snd (try_saveSession fault (w_db w) session)";
      cases "setItem (session # filter (\<lambda>s. s_id s \<noteq> s_id session) (st_sessions (w_state w)))")
     (simp_all add: hook_saveSession_def saveToLocalStorage_def)

lemma hook_deleteSession_storageType:
  "st_storageType (w_state w) = IndexedDB \<Longrightarrow>
     st_storageType (w_state (fst (hook_deleteSession fault setItem w sessionId))) = IndexedDB
     \<and> w_localStorage (fst (hook_deleteSession fault setItem w sessionId)) = w_localStorage w
     \<and> w_db (fst (hook_deleteSession fault setItem w sessionId))
         = fst (try_deleteSession fault (w_db w) sessionId)"
  by (cases "try_deleteSession fault (w_db w) sessionId";
      cases "snd (try_deleteSession fault (w_db w) sessionId)")
     (simp_all add: hook_deleteSession_def forgetSession_def Let_def)

text \<open>
  C8, as amended. While the storage type is IndexedDB:
  \<^item> a save that rejects is retried against localStorage, writing the in-memory list
    with the session put first, and the in-memory list is not updated; the database
    keeps what the rejected call had written before a \<^verbatim>\<open>put\<close> raised, and is as it
    was when the call failed before its \<^verbatim>\<open>try\<close> block or by a request error;
  \<^item> a save whose transaction aborts at commit never settles and is not retried;
  \<^item> a delete that rejects is not retried: the session leaves the in-memory list,
    localStorage is not written, and the database keeps the deletions made before a
    \<^verbatim>\<open>delete\<close> raised; a delete whose transaction aborts at commit never settles;
  \<^item> a load that fails before the \<^verbatim>\<open>try\<close> block of \<open>getSessionWithMessages\<close> is
    answered from the in-memory list, and one that fails inside it with \<^verbatim>\<open>null\<close>;
  \<^item> in each case the storage type stays IndexedDB, and a save that follows a failed
    save and does not fail goes to the database.
\<close>

theorem primary_failure_routing:
  assumes "st_storageType (w_state w) = IndexedDB"
  shows "(fault = OpenFails \<or> fault = RequestFails \<longrightarrow>
            hook_saveSession fault setItem w session
              = (saveToLocalStorage setItem w
                   (session # filter (\<lambda>s. s_id s \<noteq> s_id session) (st_sessions (w_state w))),
                 Resolved))
       \<and> (n \<le> length (s_messages session) \<longrightarrow>
            hook_saveSession (CallThrows n) setItem w session
              = (saveToLocalStorage setItem (w\<lparr> w_db := partialSave n (w_db w) session \<rparr>)
                   (session # filter (\<lambda>s. s_id s \<noteq> s_id session) (st_sessions (w_state w))),
                 Resolved))
       \<and> hook_saveSession CommitAborts setItem w session = (w, Pending)
       \<and> (fault = OpenFails \<or> fault = RequestFails \<longrightarrow>
            hook_deleteSession fault setItem w sessionId
              = (w\<lparr> w_state := (w_state w)\<lparr> st_sessions :=
                      filter (\<lambda>s. s_id s \<noteq> sessionId) (st_sessions (w_state w)) \<rparr> \<rparr>,
                 Resolved))
       \<and> (n \<le> length (sessionId_getAll (MESSAGES_STORE (w_db w)) sessionId) \<longrightarrow>
            hook_deleteSession (CallThrows n) setItem w sessionId
              = (w\<lparr> w_db := partialDelete n (w_db w) sessionId,
                    w_state := (w_state w)\<lparr> st_sessions :=
                      filter (\<lambda>s. s_id s \<noteq> sessionId) (st_sessions (w_state w)) \<rparr> \<rparr>,
                 Resolved))
       \<and> hook_deleteSession CommitAborts setItem w sessionId = (w, Pending)
       \<and> w_localStorage (fst (hook_deleteSession fault setItem w sessionId)) = w_localStorage w
       \<and> hook_loadSession OpenFails w now sessionId
           = find (\<lambda>s. s_id s = sessionId) (st_sessions (w_state w))
       \<and> hook_loadSession RequestFails w now sessionId = None
       \<and> hook_loadSession (CallThrows n) w now sessionId = None
       \<and> st_storageType (w_state (fst (hook_saveSession fault setItem w session))) = IndexedDB
       \<and> st_storageType (w_state (fst (hook_deleteSession fault setItem w sessionId))) = IndexedDB
       \<and> w_db (fst (hook_saveSession NoFault setItem
                      (fst (hook_saveSession fault setItem w session)) session'))
           = saveSession (fst (try_saveSession fault (w_db w) session)) session'"
proof -
  have s1: "hook_saveSession fault setItem w session
      = (saveToLocalStorage setItem w
           (session # filter (\<lambda>s. s_id s \<noteq> s_id session) (st_sessions (w_state w))), Resolved)"
    if "fault = OpenFails \<or> fault = RequestFails"
    using that assms by (auto simp: hook_saveSession_def try_saveSession_def)
  have s2: "hook_saveSession (CallThrows n) setItem w session
      = (saveToLocalStorage setItem (w\<lparr> w_db := partialSave n (w_db w) session \<rparr>)
           (session # filter (\<lambda>s. s_id s \<noteq> s_id session) (st_sessions (w_state w))), Resolved)"
    if "n \<le> length (s_messages session)"
    using that assms by (simp add: hook_saveSession_def try_saveSession_def)
  have s3: "hook_saveSession CommitAborts setItem w session = (w, Pending)"
    using assms by (simp add: hook_saveSession_def try_saveSession_def)
  have d1: "hook_deleteSession fault setItem w sessionId
      = (w\<lparr> w_state := (w_state w)\<lparr> st_sessions :=
              filter (\<lambda>s. s_id s \<noteq> sessionId) (st_sessions (w_state w)) \<rparr> \<rparr>, Resolved)"
    if "fault = OpenFails \<or> fault = RequestFails"
    using that assms
    by (auto simp: hook_deleteSession_def try_deleteSession_def forgetSession_def Let_def)
  have d2: "hook_deleteSession (CallThrows n) setItem w sessionId
      = (w\<lparr> w_db := partialDelete n (w_db w) sessionId,
            w_state := (w_state w)\<lparr> st_sessions :=
              filter (\<lambda>s. s_id s \<noteq> sessionId) (st_sessions (w_state w)) \<rparr> \<rparr>, Resolved)"
    if "n \<le> length (sessionId_getAll (MESSAGES_STORE (w_db w)) sessionId)"
    using that assms
    by (simp add: hook_deleteSession_def try_deleteSession_def forgetSession_def Let_def)
  have d3: "hook_deleteSession CommitAborts setItem w sessionId = (w, Pending)"
    using assms by (simp add: hook_deleteSession_def try_deleteSession_def)
  have l: "hook_loadSession OpenFails w now sessionId
           = find (\<lambda>s. s_id s = sessionId) (st_sessions (w_state w))"
    "hook_loadSession RequestFails w now sessionId = None"
    "hook_loadSession (CallThrows n) w now sessionId = None"
    using assms by (simp_all add: hook_loadSession_def try_getSessionWithMessages_def)
  note a = hook_saveSession_storageType[OF assms, of fault setItem session]
  note b = hook_deleteSession_storageType[OF assms, of fault setItem sessionId]
  have nx: "w_db (fst (hook_saveSession NoFault setItem
                      (fst (hook_saveSession fault setItem w session)) session'))
           = saveSession (fst (try_saveSession fault (w_db w) session)) session'"
    using hook_saveSession_storageType[OF conjunct1[OF a], of NoFault setItem session'] a
    by (simp add: try_saveSession_def)
  show ?thesis
    apply (intro conjI impI)
    subgoal by (rule s1)
    subgoal by (rule s2)
    subgoal by (rule s3)
    subgoal by (rule d1)
    subgoal by (rule d2)
    subgoal by (rule d3)
    subgoal by (rule b[THEN conjunct2, THEN conjunct1])
    subgoal by (rule l(1))
    subgoal by (rule l(2))
    subgoal by (rule l(3))
    subgoal by (rule a[THEN conjunct1])
    subgoal by (rule b[THEN conjunct1])
    subgoal by (rule nx)
    done
qed

text \<open>
  A save of \<open>S2\<close> that fails by a request error is written to localStorage. A save of
  scenario A whose second message cannot be stored is written to localStorage too, and
  leaves in the database the summary, with the count 2, and the first message. A load
  that cannot open the database is answered from the in-memory list. A delete of
  scenario A that fails by a request error leaves the database as it was, and one
  whose first message cannot be deleted leaves the two messages without their
  session; both take the session from the in-memory list.
\<close>

theorem primary_failure_routing_witness:
  "st_storageType (w_state (ex_world IndexedDB [scenarioA_session] empty_db None)) = IndexedDB
   \<and> hook_saveSession RequestFails (quota_of 6)
        (ex_world IndexedDB [scenarioA_session] empty_db None) (ex_session ''S2'' 3000 [])
       = (ex_world IndexedDB [scenarioA_session] empty_db
            (Some (SessionsJSON [Some (ex_session ''S2'' 3000 []), Some scenarioA_session])),
          Resolved)
   \<and> hook_saveSession (CallThrows 2) (quota_of 6)
        (ex_world IndexedDB [scenarioA_session] empty_db None) scenarioA_session
       = (ex_world IndexedDB [scenarioA_session]
            \<lparr> SESSIONS_STORE = [compress scenarioA_session],
              MESSAGES_STORE = [messageWithSession ''S1'' (ex_message ''m1'' ''hi'' 1000)] \<rparr>
            (Some (SessionsJSON [Some scenarioA_session])),
          Resolved)
   \<and> c_messageCount (compress scenarioA_session) = Some 2
   \<and> hook_loadSession OpenFails (ex_world IndexedDB [scenarioA_session] empty_db None) 5000 ''S1''
       = Some scenarioA_session
   \<and> hook_deleteSession RequestFails (quota_of 6)
        (ex_world IndexedDB [scenarioA_session] (saveSession empty_db scenarioA_session) None) ''S1''
       = (ex_world IndexedDB [] (saveSession empty_db scenarioA_session) None, Resolved)
   \<and> hook_deleteSession (CallThrows 1) (quota_of 6)
        (ex_world IndexedDB [scenarioA_session] (saveSession empty_db scenarioA_session) None) ''S1''
       = (ex_world IndexedDB []
            \<lparr> SESSIONS_STORE = [],
              MESSAGES_STORE = [messageWithSession ''S1'' (ex_message ''m2'' ''hello!'' 2000),
                                messageWithSession ''S1'' (ex_message ''m1'' ''hi'' 1000)] \<rparr>
            None,
          Resolved)"
proof -
  let ?w = "ex_world IndexedDB [scenarioA_session] empty_db None"
  let ?d = "ex_world IndexedDB [scenarioA_session] (saveSession empty_db scenarioA_session) None"
  let ?s = "ex_session ''S2'' 3000 []"
  have t: "st_storageType (w_state ?w) = IndexedDB" by (simp add: ex_world_def)
  have t': "st_storageType (w_state ?d) = IndexedDB" by (simp add: ex_world_def)
  have n: "2 \<le> length (s_messages scenarioA_session)" by (simp add: example_defs)
  have n': "1 \<le> length (sessionId_getAll (MESSAGES_STORE (w_db ?d)) ''S1'')"
    by (simp add: sessionId_getAll_def example_defs storage_defs)
  have sv: "hook_saveSession RequestFails (quota_of 6) ?w ?s
      = (saveToLocalStorage (quota_of 6) ?w
          (?s # filter (\<lambda>s. s_id s \<noteq> s_id ?s) (st_sessions (w_state ?w))), Resolved)"
    using primary_failure_routing[OF t, where fault = RequestFails and setItem = "quota_of 6"
        and session = ?s]
    by simp
  have ct: "hook_saveSession (CallThrows 2) (quota_of 6) ?w scenarioA_session
      = (saveToLocalStorage (quota_of 6) (?w\<lparr> w_db := partialSave 2 (w_db ?w) scenarioA_session \<rparr>)
          (scenarioA_session # filter (\<lambda>s. s_id s \<noteq> s_id scenarioA_session) (st_sessions (w_state ?w))),
         Resolved)"
    using primary_failure_routing[OF t, where n = 2 and setItem = "quota_of 6"
        and session = scenarioA_session] n
    by simp
  have ld: "hook_loadSession OpenFails ?w 5000 ''S1''
      = find (\<lambda>s. s_id s = ''S1'') (st_sessions (w_state ?w))"
    using primary_failure_routing[OF t, where now = 5000 and sessionId = "''S1''"] by simp
  have dl: "hook_deleteSession RequestFails (quota_of 6) ?d ''S1''
      = (?d\<lparr> w_state := (w_state ?d)\<lparr> st_sessions :=
              filter (\<lambda>s. s_id s \<noteq> ''S1'') (st_sessions (w_state ?d)) \<rparr> \<rparr>, Resolved)"
    using primary_failure_routing[OF t', where fault = RequestFails and setItem = "quota_of 6"
        and sessionId = "''S1''"]
    by simp
  have dt: "hook_deleteSession (CallThrows 1) (quota_of 6) ?d ''S1''
      = (?d\<lparr> w_db := partialDelete 1 (w_db ?d) ''S1'',
             w_state := (w_state ?d)\<lparr> st_sessions :=
              filter (\<lambda>s. s_id s \<noteq> ''S1'') (st_sessions (w_state ?d)) \<rparr> \<rparr>, Resolved)"
    using primary_failure_routing[OF t', where n = 1 and setItem = "quota_of 6"
        and sessionId = "''S1''"] n'
    by simp
  have e1: "saveToLocalStorage (quota_of 6) ?w
          (?s # filter (\<lambda>s. s_id s \<noteq> s_id ?s) (st_sessions (w_state ?w)))
      = ex_world IndexedDB [scenarioA_session] empty_db
            (Some (SessionsJSON [Some ?s, Some scenarioA_session]))"
    by (simp add: saveToLocalStorage_def example_defs)
  have e2: "saveToLocalStorage (quota_of 6) (?w\<lparr> w_db := partialSave 2 (w_db ?w) scenarioA_session \<rparr>)
          (scenarioA_session # filter (\<lambda>s. s_id s \<noteq> s_id scenarioA_session) (st_sessions (w_state ?w)))
      = ex_world IndexedDB [scenarioA_session]
            \<lparr> SESSIONS_STORE = [compress scenarioA_session],
              MESSAGES_STORE = [messageWithSession ''S1'' (ex_message ''m1'' ''hi'' 1000)] \<rparr>
            (Some (SessionsJSON [Some scenarioA_session]))"
    by (simp add: saveToLocalStorage_def partialSave_def example_defs store_put_def
        messageWithSession_def)
  have e3: "find (\<lambda>s. s_id s = ''S1'') (st_sessions (w_state ?w)) = Some scenarioA_session"
    by (simp add: example_defs)
  have e4: "c_messageCount (compress scenarioA_session) = Some 2"
    by (simp add: compress_def example_defs)
  have e5: "?d\<lparr> w_state := (w_state ?d)\<lparr> st_sessions :=
              filter (\<lambda>s. s_id s \<noteq> ''S1'') (st_sessions (w_state ?d)) \<rparr> \<rparr>
      = ex_world IndexedDB [] (saveSession empty_db scenarioA_session) None"
    by (simp add: example_defs)
  have e6: "?d\<lparr> w_db := partialDelete 1 (w_db ?d) ''S1'',
             w_state := (w_state ?d)\<lparr> st_sessions :=
              filter (\<lambda>s. s_id s \<noteq> ''S1'') (st_sessions (w_state ?d)) \<rparr> \<rparr>
      = ex_world IndexedDB []
            \<lparr> SESSIONS_STORE = [],
              MESSAGES_STORE = [messageWithSession ''S1'' (ex_message ''m2'' ''hello!'' 2000),
                                messageWithSession ''S1'' (ex_message ''m1'' ''hi'' 1000)] \<rparr>
            None"
    by (simp add: partialDelete_def store_delete_def example_defs storage_defs)
  show ?thesis using t e4 by (simp only: sv ct ld dl dt e1 e2 e3 e5 e6 simp_thms)
qed

text \<open>
  The claim C8 as it is written fails for each operation. After a failed delete the
  slot of the fallback store is as it was, with the session in it; a load that fails
  inside \<open>getSessionWithMessages\<close> returns \<^verbatim>\<open>null\<close> although the fallback store and
  the in-memory list hold the session; and a save whose transaction aborts at commit
  is not retried: the slot stays empty and the call never settles.
\<close>

theorem primary_failure_routing_counterexample:
  "w_localStorage (fst (hook_deleteSession RequestFails (quota_of 6)
       (ex_world IndexedDB [scenarioA_session] (saveSession empty_db scenarioA_session)
          (Some (SessionsJSON [Some scenarioA_session]))) ''S1''))
     = Some (SessionsJSON [Some scenarioA_session])
   \<and> hook_loadSession RequestFails
       (ex_world IndexedDB [scenarioA_session] (saveSession empty_db scenarioA_session)
          (Some (SessionsJSON [Some scenarioA_session]))) 5000 ''S1'' = None
   \<and> hook_saveSession CommitAborts (quota_of 6)
       (ex_world IndexedDB [] empty_db None) scenarioA_session
     = (ex_world IndexedDB [] empty_db None, Pending)"
  by (simp add: hook_deleteSession_def hook_loadSession_def hook_saveSession_def
      try_deleteSession_def try_saveSession_def forgetSession_def
      try_getSessionWithMessages_def ex_world_def Let_def)

subsection \<open>Quota failures of the fallback store\<close>

lemma refreshSessions_keeps:
  "refreshSessions listFails loadFault saveFault w now = Inr w' \<Longrightarrow>
     w_localStorage w' = w_localStorage w \<and> st_error (w_state w') = st_error (w_state w)"
  by (auto simp: refreshSessions_def loadSessionsFromIndexedDB_def loadSessionsFromLocalStorage_def
      split: if_splits prod.splits option.splits StoredText.splits)

lemma refreshSessions_keeps_unsettled:
  "refreshSessions listFails loadFault saveFault w now = Inl u \<Longrightarrow>
     w_localStorage (case u of Throws v \<Rightarrow> v | Hangs v \<Rightarrow> v) = w_localStorage w
     \<and> st_error (w_state (case u of Throws v \<Rightarrow> v | Hangs v \<Rightarrow> v)) = st_error (w_state w)"
  by (auto simp: refreshSessions_def loadSessionsFromIndexedDB_def
      split: if_splits prod.splits option.splits)

text \<open>What the effect leaves in the slot and in the error field, whatever the list.\<close>

lemma saveSessionsEffect_quota:
  assumes "setItem (st_sessions (w_state w)) = QuotaExceededError"
  shows "w_localStorage (fst (saveSessionsEffect True setItem listFails loadFault saveFault now w cur))
           = (if setItem (take 6 (st_sessions (w_state w))) = Stored
              then Some (SessionsJSON (map Some (take 6 (st_sessions (w_state w)))))
              else w_localStorage w)
       \<and> st_error (w_state (fst (saveSessionsEffect True setItem listFails loadFault saveFault now w cur)))
           = st_error (w_state w)
       \<and> (setItem (take 6 (st_sessions (w_state w))) \<noteq> Stored \<longrightarrow>
            saveSessionsEffect True setItem listFails loadFault saveFault now w cur = (w, cur))"
proof (cases "setItem (take 6 (st_sessions (w_state w)))")
  case Stored
  let ?w' = "w\<lparr> w_localStorage := Some (SessionsJSON (map Some (take 6 (st_sessions (w_state w))))) \<rparr>"
  show ?thesis
  proof (cases "refreshSessions listFails loadFault saveFault ?w' now")
    case (Inl u)
    from refreshSessions_keeps_unsettled[OF Inl] Inl show ?thesis
      using assms Stored by (simp add: saveSessionsEffect_def Let_def)
  next
    case (Inr v)
    from refreshSessions_keeps[OF Inr] Inr show ?thesis
      using assms Stored by (simp add: saveSessionsEffect_def Let_def)
  qed
qed (use assms in \<open>simp_all add: saveSessionsEffect_def Let_def\<close>)

lemma saveSessionsEffect_reload:
  assumes "setItem (st_sessions (w_state w)) = QuotaExceededError"
    and "setItem (take 6 (st_sessions (w_state w))) = Stored"
    and "st_storageType (w_state w) = LocalStorage"
  shows "st_sessions (w_state (fst (saveSessionsEffect True setItem listFails loadFault saveFault now w cur)))
           = take 6 (st_sessions (w_state w))"
  using assms
  by (simp add: saveSessionsEffect_def Let_def refreshSessions_def loadSessionsFromLocalStorage_def
      list_all_iff comp_def)

text \<open>The sessions past the sixth of the sorted list were updated no later than the first six.\<close>

lemma sorted_take_drop:
  assumes "k \<in> set (take n (sort_key (\<lambda>s. - f s) xs))" and "d \<in> set (drop n (sort_key (\<lambda>s. - f s) xs))"
  shows "(f d :: int) \<le> f k"
proof -
  let ?ys = "sort_key (\<lambda>s. - f s) xs"
  have "sorted (map (\<lambda>s. - f s) (take n ?ys @ drop n ?ys))" by simp
  then have "\<forall>a \<in> set (take n ?ys). \<forall>b \<in> set (drop n ?ys). - f a \<le> - f b"
    unfolding map_append sorted_append by auto
  with assms show ?thesis by fastforce
qed

text \<open>
  C6, as amended. The effect runs after a render, which has sorted the in-memory list
  by \<open>updatedAt\<close>, latest first. When its write of that list fails with
  \<^verbatim>\<open>QuotaExceededError\<close>, the first 6 sessions of the sorted list are written in one
  second attempt; they are all the sessions when there are no more than 6, and
  otherwise 6 of them, none updated earlier than a session that is left out. If the
  second attempt succeeds they are what the slot holds, and when the storage type is
  localStorage the refresh makes them the in-memory list. If it fails nothing changes:
  the slot, the in-memory list and the error field of the hook are as before, and the
  failure is not passed on. The hook's own \<open>saveToLocalStorage\<close>, given that list,
  does not truncate or retry: it sets the error field and leaves the slot as it is.
\<close>

theorem quota_truncation:
  assumes "setItem (sort_key (\<lambda>s. - s_updatedAt s) (st_sessions (w_state w))) = QuotaExceededError"
  shows "w_localStorage (fst (saveSessionsAfterRender True setItem listFails loadFault saveFault now w cur))
           = (if setItem (take 6 (sort_key (\<lambda>s. - s_updatedAt s) (st_sessions (w_state w)))) = Stored
              then Some (SessionsJSON (map Some
                     (take 6 (sort_key (\<lambda>s. - s_updatedAt s) (st_sessions (w_state w))))))
              else w_localStorage w)
       \<and> length (take 6 (sort_key (\<lambda>s. - s_updatedAt s) (st_sessions (w_state w))))
           = min 6 (length (st_sessions (w_state w)))
       \<and> mset (take 6 (sort_key (\<lambda>s. - s_updatedAt s) (st_sessions (w_state w))))
           + mset (drop 6 (sort_key (\<lambda>s. - s_updatedAt s) (st_sessions (w_state w))))
           = mset (st_sessions (w_state w))
       \<and> (\<forall>k \<in> set (take 6 (sort_key (\<lambda>s. - s_updatedAt s) (st_sessions (w_state w)))).
            \<forall>d \<in> set (drop 6 (sort_key (\<lambda>s. - s_updatedAt s) (st_sessions (w_state w)))).
              s_updatedAt d \<le> s_updatedAt k)
       \<and> (setItem (take 6 (sort_key (\<lambda>s. - s_updatedAt s) (st_sessions (w_state w)))) = Stored
            \<and> st_storageType (w_state w) = LocalStorage \<longrightarrow>
            st_sessions (w_state (fst (saveSessionsAfterRender True setItem listFails loadFault
                                         saveFault now w cur)))
              = take 6 (sort_key (\<lambda>s. - s_updatedAt s) (st_sessions (w_state w))))
       \<and> st_error (w_state (fst (saveSessionsAfterRender True setItem listFails loadFault saveFault
                                    now w cur)))
           = st_error (w_state w)
       \<and> (setItem (take 6 (sort_key (\<lambda>s. - s_updatedAt s) (st_sessions (w_state w)))) \<noteq> Stored \<longrightarrow>
            saveSessionsAfterRender True setItem listFails loadFault saveFault now w cur
              = (renderHistoryModal w, cur))
       \<and> saveToLocalStorage setItem (renderHistoryModal w) (st_sessions (w_state (renderHistoryModal w)))
           = (renderHistoryModal w)
               \<lparr> w_state := (w_state (renderHistoryModal w))\<lparr> st_error := Some LocalStorageFull \<rparr> \<rparr>"
proof -
  let ?sorted = "sort_key (\<lambda>s. - s_updatedAt s) (st_sessions (w_state w))"
  let ?r = "renderHistoryModal w"
  have r: "st_sessions (w_state ?r) = ?sorted" "w_localStorage ?r = w_localStorage w"
    "st_error (w_state ?r) = st_error (w_state w)"
    "st_storageType (w_state ?r) = st_storageType (w_state w)"
    by (simp_all add: renderHistoryModal_def)
  have q: "setItem (st_sessions (w_state ?r)) = QuotaExceededError"
    unfolding r(1) by (rule assms)
  note e = saveSessionsEffect_quota[where setItem = setItem and w = ?r and listFails = listFails
      and loadFault = loadFault and saveFault = saveFault and now = now and cur = cur, OF q,
      folded saveSessionsAfterRender_def, unfolded r]
  have c1: "length (take 6 ?sorted) = min 6 (length (st_sessions (w_state w)))"
    by (simp add: min.commute)
  have c2: "mset (take 6 ?sorted) + mset (drop 6 ?sorted) = mset (st_sessions (w_state w))"
    unfolding mset_append[symmetric] append_take_drop_id by simp
  have c3: "s_updatedAt d \<le> s_updatedAt k"
    if "k \<in> set (take 6 ?sorted)" "d \<in> set (drop 6 ?sorted)" for k d
    using that by (rule sorted_take_drop)
  have c4: "st_sessions (w_state (fst (saveSessionsAfterRender True setItem listFails loadFault
                                         saveFault now w cur))) = take 6 ?sorted"
    if "setItem (take 6 ?sorted) = Stored \<and> st_storageType (w_state w) = LocalStorage"
    using saveSessionsEffect_reload[where setItem = setItem and w = ?r and listFails = listFails
      and loadFault = loadFault and saveFault = saveFault and now = now and cur = cur, OF q] that
    unfolding r saveSessionsAfterRender_def by simp
  have c5: "saveToLocalStorage setItem ?r (st_sessions (w_state ?r))
           = ?r\<lparr> w_state := (w_state ?r)\<lparr> st_error := Some LocalStorageFull \<rparr> \<rparr>"
    using q by (simp add: saveToLocalStorage_def)
  show ?thesis
    apply (intro conjI ballI impI)
    subgoal by (rule e[THEN conjunct1])
    subgoal by (rule c1)
    subgoal by (rule c2)
    subgoal for k d by (rule c3)
    subgoal by (rule c4)
    subgoal by (rule e[THEN conjunct2, THEN conjunct1])
    subgoal using e[THEN conjunct2, THEN conjunct2] by (rule mp)
    subgoal by (rule c5)
    done
qed

text \<open>
  Scenario C with room for 6 sessions: the render puts \<open>A2\<close> and \<open>A1\<close>, the two
  updated last, in front, and the second write keeps them and drops \<open>A4\<close> and \<open>A3\<close>.
  Without room for any session the second write fails and the effect changes nothing.
\<close>

theorem quota_truncation_witness:
  "quota_of 6 (sort_key (\<lambda>s. - s_updatedAt s)
      (st_sessions (w_state (ex_world LocalStorage scenarioC_sessions empty_db None))))
     = QuotaExceededError
   \<and> w_localStorage (fst (saveSessionsAfterRender True (quota_of 6) False NoFault NoFault 100
        (ex_world LocalStorage scenarioC_sessions empty_db None) None))
     = Some (SessionsJSON (map Some
        [ex_session ''A2'' 20 [], ex_session ''A1'' 10 [], ex_session ''A8'' 8 [],
         ex_session ''A7'' 7 [], ex_session ''A6'' 6 [], ex_session ''A5'' 5 []]))
   \<and> st_sessions (w_state (fst (saveSessionsAfterRender True (quota_of 6) False NoFault NoFault 100
        (ex_world LocalStorage scenarioC_sessions empty_db None) None)))
     = [ex_session ''A2'' 20 [], ex_session ''A1'' 10 [], ex_session ''A8'' 8 [],
        ex_session ''A7'' 7 [], ex_session ''A6'' 6 [], ex_session ''A5'' 5 []]
   \<and> drop 6 (sort_key (\<lambda>s. - s_updatedAt s)
        (st_sessions (w_state (ex_world LocalStorage scenarioC_sessions empty_db None))))
     = [ex_session ''A4'' 4 [], ex_session ''A3'' 3 []]
   \<and> s_updatedAt (ex_session ''A4'' 4 []) \<le> s_updatedAt (ex_session ''A5'' 5 [])
   \<and> quota_of 0 (sort_key (\<lambda>s. - s_updatedAt s)
      (st_sessions (w_state (ex_world LocalStorage scenarioC_sessions empty_db None))))
     = QuotaExceededError
   \<and> saveSessionsAfterRender True (quota_of 0) False NoFault NoFault 100
        (ex_world LocalStorage scenarioC_sessions empty_db None) None
     = (renderHistoryModal (ex_world LocalStorage scenarioC_sessions empty_db None), None)"
proof -
  let ?w = "ex_world LocalStorage scenarioC_sessions empty_db None"
  let ?kept = "[ex_session ''A2'' 20 [], ex_session ''A1'' 10 [], ex_session ''A8'' 8 [],
        ex_session ''A7'' 7 [], ex_session ''A6'' 6 [], ex_session ''A5'' 5 []]"
  have s: "sort_key (\<lambda>s. - s_updatedAt s) (st_sessions (w_state ?w))
      = ?kept @ [ex_session ''A4'' 4 [], ex_session ''A3'' 3 []]"
    by (simp add: ex_world_def scenarioC_sessions_def ex_session_def)
  have a: "quota_of 6 (sort_key (\<lambda>s. - s_updatedAt s) (st_sessions (w_state ?w))) = QuotaExceededError"
    unfolding s by (simp add: quota_of_def)
  have b: "quota_of 0 (sort_key (\<lambda>s. - s_updatedAt s) (st_sessions (w_state ?w))) = QuotaExceededError"
    unfolding s by (simp add: quota_of_def)
  have k: "take 6 (sort_key (\<lambda>s. - s_updatedAt s) (st_sessions (w_state ?w))) = ?kept"
    unfolding s by simp
  have d: "drop 6 (sort_key (\<lambda>s. - s_updatedAt s) (st_sessions (w_state ?w)))
      = [ex_session ''A4'' 4 [], ex_session ''A3'' 3 []]"
    unfolding s by simp
  have c: "quota_of 6 ?kept = Stored" by (simp add: quota_of_def)
  have c': "quota_of 0 ?kept \<noteq> Stored" by (simp add: quota_of_def)
  have t: "st_storageType (w_state ?w) = LocalStorage" by (simp add: ex_world_def)
  note q = quota_truncation[where setItem = "quota_of 6" and w = ?w and listFails = False
         and loadFault = NoFault and saveFault = NoFault and now = 100 and cur = None, OF a,
         unfolded k d]
  note q' = quota_truncation[where setItem = "quota_of 0" and w = ?w and listFails = False
         and loadFault = NoFault and saveFault = NoFault and now = 100 and cur = None, OF b,
         unfolded k d]
  have slot: "w_localStorage (fst (saveSessionsAfterRender True (quota_of 6) False NoFault NoFault 100 ?w None))
      = Some (SessionsJSON (map Some ?kept))"
    using q[THEN conjunct1] by (simp only: c simp_thms if_True)
  have list: "st_sessions (w_state (fst (saveSessionsAfterRender True (quota_of 6) False NoFault
      NoFault 100 ?w None))) = ?kept"
    using q[THEN conjunct2, THEN conjunct2, THEN conjunct2, THEN conjunct2, THEN conjunct1]
    by (simp only: c t simp_thms)
  have later: "s_updatedAt (ex_session ''A4'' 4 []) \<le> s_updatedAt (ex_session ''A5'' 5 [])"
    using q[THEN conjunct2, THEN conjunct2, THEN conjunct2, THEN conjunct1] by simp
  have fails: "saveSessionsAfterRender True (quota_of 0) False NoFault NoFault 100 ?w None
      = (renderHistoryModal ?w, None)"
    using q'[THEN conjunct2, THEN conjunct2, THEN conjunct2, THEN conjunct2, THEN conjunct2,
        THEN conjunct2, THEN conjunct1] c'
    by (rule mp)
  from a slot list d later b fails show ?thesis by (intro conjI)
qed

text \<open>
  The claim C6 as it is written fails where the second write fails too, as on
  scenario C without room for any session: the page leaves the slot, the list and the
  error field as they were after the render and reports nothing. And the hook's
  \<open>saveToLocalStorage\<close> answers a quota failure by setting its error field, with
  neither truncation nor a second write.
\<close>

theorem quota_truncation_counterexample:
  "saveSessionsAfterRender True (quota_of 0) False NoFault NoFault 100
        (ex_world LocalStorage scenarioC_sessions empty_db None) None
     = (renderHistoryModal (ex_world LocalStorage scenarioC_sessions empty_db None), None)
   \<and> st_error (w_state (renderHistoryModal (ex_world LocalStorage scenarioC_sessions empty_db None)))
     = None
   \<and> w_localStorage (renderHistoryModal (ex_world LocalStorage scenarioC_sessions empty_db None))
     = None
   \<and> saveToLocalStorage (quota_of 6) (ex_world LocalStorage scenarioC_sessions empty_db None)
        scenarioC_sessions
     = (ex_world LocalStorage scenarioC_sessions empty_db None)
         \<lparr> w_state := (w_state (ex_world LocalStorage scenarioC_sessions empty_db None))
              \<lparr> st_error := Some LocalStorageFull \<rparr> \<rparr>"
  by (simp add: saveSessionsAfterRender_def saveSessionsEffect_def renderHistoryModal_def
       saveToLocalStorage_def Let_def ex_world_def quota_of_def scenarioC_sessions_def)

subsection \<open>The model-list cache\<close>

text \<open>
  C9, as amended. The cache is one value with the fields data, timestamp and cacheKey,
  kept for 24 hours (\<open>86400000\<close> ms). Called with a non-empty key,
  \<open>fetchAvailableModels\<close> returns the cached data without a request exactly when the
  module's cache (read from localStorage first when it is not set) has the cache key
  of the arguments and is less than 24 hours old. Otherwise it sends the request; when
  the request succeeds it returns the list and replaces the cache, stamped with the
  time of the call, and when the request fails it throws and leaves the cache alone.
  Called with the empty key it throws at once and changes nothing.
\<close>

theorem models_cache_ttl:
  assumes "apiKey \<noteq> []"
  shows "CACHE_DURATION = 86400000
     \<and> fetchAvailableModels f response ok now st [] baseUrl = (st, ApiKeyMissing)
     \<and> ((\<exists>d. snd (fetchAvailableModels f response ok now st apiKey baseUrl) = FromCache d)
          \<longleftrightarrow> (\<exists>c. modelsCache (ensureModelsCache st) = Some c
                   \<and> mc_cacheKey c = cacheKeyOf apiKey baseUrl
                   \<and> now - mc_timestamp c < 24 * 60 * 60 * 1000))
     \<and> (\<forall>c. modelsCache (ensureModelsCache st) = Some c
              \<and> mc_cacheKey c = cacheKeyOf apiKey baseUrl \<and> now - mc_timestamp c < 24 * 60 * 60 * 1000
            \<longrightarrow> fetchAvailableModels f response ok now st apiKey baseUrl
                  = (ensureModelsCache st, FromCache (mc_data c)))
     \<and> (\<forall>data. validCache (modelsCache (ensureModelsCache st)) (cacheKeyOf apiKey baseUrl) now = None
              \<and> response = Some data
            \<longrightarrow> snd (fetchAvailableModels f response ok now st apiKey baseUrl) = Fetched (f data)
              \<and> modelsCache (fst (fetchAvailableModels f response ok now st apiKey baseUrl))
                  = Some \<lparr> mc_data = f data, mc_timestamp = now,
                           mc_cacheKey = cacheKeyOf apiKey baseUrl \<rparr>)
     \<and> (validCache (modelsCache (ensureModelsCache st)) (cacheKeyOf apiKey baseUrl) now = None
              \<and> response = None
            \<longrightarrow> fetchAvailableModels f response ok now st apiKey baseUrl
                  = (ensureModelsCache st, FetchFailed))"
  using assms
  by (auto simp: fetchAvailableModels_def validCache_def CACHE_DURATION_def Let_def
      saveModelsCache_def split: option.splits if_splits)

theorem models_cache_ttl_witness:
  "fetchAvailableModels id (Some [ex_model ''gpt-4o'']) True 86400999 ex_cache ''sk-1'' ''https://api''
     = (ensureModelsCache ex_cache, FromCache [ex_model ''gpt-4''])
   \<and> snd (fetchAvailableModels id (Some [ex_model ''gpt-4o'']) True 86401000 ex_cache ''sk-1'' ''https://api'')
     = Fetched [ex_model ''gpt-4o'']
   \<and> modelsCache (fst (fetchAvailableModels id (Some [ex_model ''gpt-4o'']) True 86401000 ex_cache
        ''sk-1'' ''https://api''))
     = Some \<lparr> mc_data = [ex_model ''gpt-4o''], mc_timestamp = 86401000,
              mc_cacheKey = ''sk-1_https://api'' \<rparr>"
proof -
  let ?c = "\<lparr> mc_data = [ex_model ''gpt-4''], mc_timestamp = 1000, mc_cacheKey = ''sk-1_https://api'' \<rparr>"
  have k: "''sk-1'' \<noteq> []" by simp
  have key: "cacheKeyOf ''sk-1'' ''https://api'' = ''sk-1_https://api''"
    by (simp add: cacheKeyOf_def)
  have c: "modelsCache (ensureModelsCache ex_cache) = Some ?c"
    by (simp add: ensureModelsCache_def loadModelsCache_def ex_cache_def)
  have old: "validCache (modelsCache (ensureModelsCache ex_cache))
      (cacheKeyOf ''sk-1'' ''https://api'') 86401000 = None"
    unfolding c key by (simp add: validCache_def CACHE_DURATION_def)
  have hit: "fetchAvailableModels id (Some [ex_model ''gpt-4o'']) True 86400999 ex_cache ''sk-1'' ''https://api''
      = (ensureModelsCache ex_cache, FromCache (mc_data ?c))"
    using models_cache_ttl[OF k, of id "Some [ex_model ''gpt-4o'']" True 86400999 ex_cache "''https://api''"]
      c key by simp
  have miss: "snd (fetchAvailableModels id (Some [ex_model ''gpt-4o'']) True 86401000 ex_cache ''sk-1'' ''https://api'')
        = Fetched (id [ex_model ''gpt-4o''])
      \<and> modelsCache (fst (fetchAvailableModels id (Some [ex_model ''gpt-4o'']) True 86401000 ex_cache
           ''sk-1'' ''https://api''))
        = Some \<lparr> mc_data = id [ex_model ''gpt-4o''], mc_timestamp = 86401000,
                 mc_cacheKey = cacheKeyOf ''sk-1'' ''https://api'' \<rparr>"
    using models_cache_ttl[OF k, of id "Some [ex_model ''gpt-4o'']" True 86401000 ex_cache "''https://api''"]
      old by blast
  from hit miss show ?thesis by (simp add: key)
qed

text \<open>
  The claim C9 as it is written fails in its second half. With the empty API key the
  application starts with, the call throws at once, with neither a request nor a new
  cache; and when the request fails the call throws and the cache is not replaced.
\<close>

theorem models_cache_ttl_counterexample:
  "fetchAvailableModels id (Some [ex_model ''gpt-4'']) True 1000
       \<lparr> modelsCache = None, cacheStorage = None \<rparr> [] ''https://api''
     = (\<lparr> modelsCache = None, cacheStorage = None \<rparr>, ApiKeyMissing)
   \<and> fetchAvailableModels id None True 1000
       \<lparr> modelsCache = None, cacheStorage = None \<rparr> ''sk-1'' ''https://api''
     = (\<lparr> modelsCache = None, cacheStorage = None \<rparr>, FetchFailed)"
  by (simp add: fetchAvailableModels_def ensureModelsCache_def loadModelsCache_def
      validCache_def Let_def)

end
